theory Spec2Isabelle
  imports Complex_Main "HOL-Library.Char_ord" "HOL-Library.List_Lexorder"
begin

section \<open>The diversity driver of scikit-bio (skbio/diversity/\_driver.py)\<close>

text \<open>
  The driver dispatches a metric (a name or a callable) over a counts matrix. Everything it
  calls outside the file (the validator, the phylogenetic set-up routines, the metric bodies,
  the pairwise backend) is a parameter of the model, collected in the record \<open>env\<close>; each of
  them may raise, so each returns \<open>error + 'a\<close>. The driver's own functions return the list
  of calls they made to those collaborators, in order, together with their outcome.
  A float is a real number, an infinity or NaN; rounding is not modelled (the driver's only
  arithmetic is adding a distance to 0.0, which is exact).
\<close>

subsection \<open>Exceptions\<close>

text \<open>A message is kept as its parts: literal text, and values formatted with \<open>%r\<close>.\<close>

datatype msg_part = Txt string | Repr string

type_synonym message = "msg_part list"

datatype error =
    ValueError message
  | TypeError message
  | IndexError message
  | KeyError message
  | MissingNodeError message
  | DuplicateNodeError message

subsection \<open>Floating-point values\<close>

text \<open>
  The values of the metrics are Python floats. \<open>fadd\<close> is their addition and \<open>feq\<close> their
  comparison \<open>==\<close>: NaN is absorbing for the first and equal to nothing, itself included,
  for the second.
\<close>

datatype pyfloat = Num real | PInf | NInf | NaN

fun fadd :: "pyfloat \<Rightarrow> pyfloat \<Rightarrow> pyfloat" where
  "fadd NaN y = NaN"
| "fadd x NaN = NaN"
| "fadd PInf NInf = NaN"
| "fadd NInf PInf = NaN"
| "fadd PInf y = PInf"
| "fadd x PInf = PInf"
| "fadd NInf y = NInf"
| "fadd x NInf = NInf"
| "fadd (Num a) (Num b) = Num (a + b)"

definition feq :: "pyfloat \<Rightarrow> pyfloat \<Rightarrow> bool" where
  "feq x y = (x \<noteq> NaN \<and> y \<noteq> NaN \<and> x = y)"

text \<open>Numerals and \<open>+\<close> on floats, so that \<open>0\<close>, \<open>2\<close> and \<open>x + y\<close> read as in the source.\<close>

instantiation pyfloat :: "{zero, one, plus}"
begin

definition zero_pyfloat :: pyfloat where
  "zero_pyfloat = Num 0"

definition one_pyfloat :: pyfloat where
  "one_pyfloat = Num 1"

definition plus_pyfloat :: "pyfloat \<Rightarrow> pyfloat \<Rightarrow> pyfloat" where
  "plus_pyfloat x y = fadd x y"

instance ..

end

instance pyfloat :: comm_monoid_add
proof
  fix a b c :: pyfloat
  show "a + b + c = a + (b + c)"
    by (cases a; cases b; cases c) (simp_all add: plus_pyfloat_def)
  show "a + b = b + a"
    by (cases a; cases b) (simp_all add: plus_pyfloat_def)
  show "0 + a = a"
    by (cases a) (simp_all add: plus_pyfloat_def zero_pyfloat_def)
qed

instance pyfloat :: numeral ..

subsection \<open>Calls to collaborators, and runs\<close>

datatype 'r event =
    Validate
  | PhyloKwargs
  | SetupFaithPD
  | SetupUnweighted
  | SetupWeighted
  | MetricRow 'r
  | MetricPair 'r 'r
  | PairwiseFunc

type_synonym ('r, 'a) run = "'r event list \<times> (error + 'a)"

definition returns :: "'a \<Rightarrow> ('r, 'a) run" where
  "returns x = ([], Inr x)"

definition raise :: "error \<Rightarrow> ('r, 'a) run" where
  "raise e = ([], Inl e)"

definition lift :: "error + 'a \<Rightarrow> ('r, 'a) run" where
  "lift r = ([], r)"

definition call :: "'r event \<Rightarrow> error + 'a \<Rightarrow> ('r, 'a) run" where
  "call ev r = ([ev], r)"

definition then_do :: "('r, 'a) run \<Rightarrow> ('a \<Rightarrow> ('r, 'b) run) \<Rightarrow> ('r, 'b) run" where
  "then_do m f =
     (case m of
        (t, Inl e) \<Rightarrow> (t, Inl e)
      | (t, Inr x) \<Rightarrow> (case f x of (t', r) \<Rightarrow> (t @ t', r)))"

text \<open>A list comprehension whose body may raise: the first exception ends it.\<close>

fun run_all :: "('a \<Rightarrow> ('r, 'b) run) \<Rightarrow> 'a list \<Rightarrow> ('r, 'b list) run" where
  "run_all f [] = returns []"
| "run_all f (x # xs) =
     then_do (f x) (\<lambda>y. then_do (run_all f xs) (\<lambda>ys. returns (y # ys)))"

subsection \<open>Metrics, keyword arguments and the collaborators\<close>

type_synonym 'k kwargs = "string \<rightharpoonup> 'k"

type_synonym ('r, 'k) alpha_fn = "'r \<Rightarrow> 'k kwargs \<Rightarrow> error + pyfloat"

type_synonym ('r, 'k) beta_fn = "'r \<Rightarrow> 'r \<Rightarrow> 'k kwargs \<Rightarrow> error + pyfloat"

text \<open>The \<open>metric\<close> argument is documented as \<open>str, callable\<close>.\<close>

datatype 'f metric = Name string | Callable 'f

record ('r, 'k) env =
  validate_counts_matrix :: "'r list \<Rightarrow> string list option \<Rightarrow> error + 'r list"
  get_phylogenetic_kwargs :: "'r list \<Rightarrow> 'k kwargs \<Rightarrow> error + ('k \<times> 'k \<times> 'k kwargs)"
  setup_faith_pd :: "'r list \<Rightarrow> 'k \<Rightarrow> 'k \<Rightarrow> bool \<Rightarrow> bool \<Rightarrow> error + ('r list \<times> 'k)"
  faith_pd :: "('r, 'k) alpha_fn"
  setup_multiple_unweighted_unifrac ::
    "'r list \<Rightarrow> 'k \<Rightarrow> 'k \<Rightarrow> bool \<Rightarrow> error + (('r, 'k) beta_fn \<times> 'r list)"
  setup_multiple_weighted_unifrac ::
    "'r list \<Rightarrow> 'k \<Rightarrow> 'k \<Rightarrow> 'k \<Rightarrow> bool \<Rightarrow> error + (('r, 'k) beta_fn \<times> 'r list)"
  normalize_weighted_unifrac_by_default :: "'k"
  alpha_metric :: "string \<Rightarrow> ('r, 'k) alpha_fn"
  scipy_metric :: "string \<rightharpoonup> ('r, 'k) beta_fn"

text \<open>\<open>functools.partial(f, **kw)\<close>: keywords given at the call override the bound ones.\<close>

definition partial :: "('a \<Rightarrow> 'k kwargs \<Rightarrow> 'b) \<Rightarrow> 'k kwargs \<Rightarrow> 'a \<Rightarrow> 'k kwargs \<Rightarrow> 'b" where
  "partial f kw = (\<lambda>x kw'. f x (kw ++ kw'))"

definition partial2 ::
  "('a \<Rightarrow> 'a \<Rightarrow> 'k kwargs \<Rightarrow> 'b) \<Rightarrow> 'k kwargs \<Rightarrow> 'a \<Rightarrow> 'a \<Rightarrow> 'k kwargs \<Rightarrow> 'b" where
  "partial2 f kw = (\<lambda>x y kw'. f x y (kw ++ kw'))"

subsection \<open>The metric registry\<close>

definition alpha_names :: "string list" where
  "alpha_names =
     [''ace'', ''chao1'', ''chao1_ci'', ''berger_parker_d'', ''brillouin_d'', ''dominance'',
      ''doubles'', ''enspie'', ''esty_ci'', ''faith_pd'', ''fisher_alpha'', ''goods_coverage'',
      ''heip_e'', ''kempton_taylor_q'', ''margalef'', ''mcintosh_d'', ''mcintosh_e'',
      ''menhinick'', ''michaelis_menten_fit'', ''observed_otus'', ''osd'', ''pielou_e'',
      ''robbins'', ''shannon'', ''simpson'', ''simpson_e'', ''singles'', ''strong'',
      ''gini_index'', ''lladser_pe'', ''lladser_ci'']"

text \<open>
  \<open>_get_alpha_diversity_metric_map\<close>: each name is bound to the function of that name in
  \<open>skbio.diversity.alpha\<close>, here \<open>alpha_metric env name\<close>.
\<close>

definition get_alpha_diversity_metric_map :: "('r, 'k) env \<Rightarrow> string \<rightharpoonup> ('r, 'k) alpha_fn" where
  "get_alpha_diversity_metric_map env = map_of (map (\<lambda>n. (n, alpha_metric env n)) alpha_names)"

definition get_alpha_diversity_metrics :: "string list" where
  "get_alpha_diversity_metrics = sort alpha_names"

definition get_beta_diversity_metrics :: "string list" where
  "get_beta_diversity_metrics = sort [''unweighted_unifrac'', ''weighted_unifrac'']"

subsection \<open>alpha\_diversity\<close>

text \<open>
  \<open>pd.Series(results, index=ids)\<close>: without an index pandas takes its default, the integer
  positions \<open>RangeIndex(len(results))\<close>; an index of another length than the data is refused.
\<close>

datatype index = RangeIndex nat | Index "string list"

record series =
  series_values :: "pyfloat list"
  series_index :: index

definition Series :: "pyfloat list \<Rightarrow> string list option \<Rightarrow> error + series" where
  "Series data idx =
     (case idx of
        None \<Rightarrow> Inr \<lparr>series_values = data, series_index = RangeIndex (length data)\<rparr>
      | Some l \<Rightarrow>
          if length l \<noteq> length data
          then Inl (ValueError [Txt ''Length of values does not match length of index''])
          else Inr \<lparr>series_values = data, series_index = Index l\<rparr>)"

text \<open>Lines 164-165 of both entry points: the optional validation.\<close>

definition validated ::
  "('r, 'k) env \<Rightarrow> bool \<Rightarrow> 'r list \<Rightarrow> string list option \<Rightarrow> ('r, 'r list) run" where
  "validated env validate counts ids =
     (if validate then call Validate (validate_counts_matrix env counts ids)
      else returns counts)"

text \<open>Lines 167-178: the metric is resolved; the result is (counts, metric, kwargs).\<close>

definition resolve_alpha_metric ::
  "('r, 'k) env \<Rightarrow> ('r, 'k) alpha_fn metric \<Rightarrow> 'r list \<Rightarrow> bool \<Rightarrow> 'k kwargs \<Rightarrow>
     ('r, 'r list \<times> ('r, 'k) alpha_fn \<times> 'k kwargs) run" where
  "resolve_alpha_metric env metric counts validate kwargs =
     (let metric_map = get_alpha_diversity_metric_map env in
      case metric of
        Name s \<Rightarrow>
          if s = ''faith_pd'' then
            then_do (call PhyloKwargs (get_phylogenetic_kwargs env counts kwargs))
              (\<lambda>(otu_ids, tree, kwargs).
            then_do (call SetupFaithPD (setup_faith_pd env counts otu_ids tree validate False))
              (\<lambda>(counts_by_node, branch_lengths).
            returns (counts_by_node,
                     partial (faith_pd env) [''branch_lengths'' \<mapsto> branch_lengths],
                     kwargs)))
          else
            (case metric_map s of
               Some f \<Rightarrow> returns (counts, partial f kwargs, kwargs)
             | None \<Rightarrow> raise (ValueError [Txt ''Unknown metric provided: '', Repr s, Txt ''.'']))
      | Callable f \<Rightarrow> returns (counts, partial f kwargs, kwargs))"

definition alpha_diversity ::
  "('r, 'k) env \<Rightarrow> ('r, 'k) alpha_fn metric \<Rightarrow> 'r list \<Rightarrow> string list option \<Rightarrow> bool \<Rightarrow>
     'k kwargs \<Rightarrow> ('r, series) run" where
  "alpha_diversity env metric counts ids validate kwargs =
     then_do (validated env validate counts ids) (\<lambda>counts.
     then_do (resolve_alpha_metric env metric counts validate kwargs) (\<lambda>(counts, metric, kwargs).
     then_do (run_all (\<lambda>c. call (MetricRow c) (metric c kwargs)) counts) (\<lambda>results.
     lift (Series results ids))))"

subsection \<open>The restricted pairwise computer\<close>

text \<open>\<open>{id_: idx for idx, id_ in enumerate(ids)}\<close>: a later position replaces an earlier one.\<close>

definition id_index :: "string list \<Rightarrow> string \<rightharpoonup> nat" where
  "id_index ids = fold (\<lambda>(idx, i) m. m(i \<mapsto> idx)) (enumerate 0 ids) Map.empty"

definition zeros :: "nat \<Rightarrow> nat \<Rightarrow> pyfloat list list" where
  "zeros r c = replicate r (replicate c 0)"

text \<open>
  Lines 236-239: the pairs are indexed lazily, one by one, and the metric's value is stored
  in cell \<open>(u, v)\<close> of the matrix.
\<close>

fun fill_dm ::
  "('r, 'k) beta_fn \<Rightarrow> 'k kwargs \<Rightarrow> 'r list \<Rightarrow> (string \<rightharpoonup> nat) \<Rightarrow> (string \<times> string) list \<Rightarrow>
     pyfloat list list \<Rightarrow> ('r, pyfloat list list) run" where
  "fill_dm metric kwargs counts idx [] dm = returns dm"
| "fill_dm metric kwargs counts idx ((a, b) # ps) dm =
     (case idx a of
        None \<Rightarrow> raise (KeyError [Repr a])
      | Some u \<Rightarrow>
     (case idx b of
        None \<Rightarrow> raise (KeyError [Repr b])
      | Some v \<Rightarrow>
          if \<not> u < length counts \<or> \<not> v < length counts
          then raise (IndexError [Txt ''index out of bounds''])
          else then_do (call (MetricPair (counts ! u) (counts ! v))
                          (metric (counts ! u) (counts ! v) kwargs))
                 (\<lambda>d. fill_dm metric kwargs counts idx ps (dm[u := (dm ! u)[v := d]]))))"

definition mat_transpose :: "pyfloat list list \<Rightarrow> pyfloat list list" where
  "mat_transpose m = map (\<lambda>j. map (\<lambda>i. m ! i ! j) [0..<length m]) [0..<length m]"

definition mat_add :: "pyfloat list list \<Rightarrow> pyfloat list list \<Rightarrow> pyfloat list list" where
  "mat_add a b = map2 (map2 (+)) a b"

text \<open>
  \<open>scipy.spatial.distance.squareform\<close> on a square matrix, with its checks on: the matrix
  must be symmetric, \<open>(X == X.T).all()\<close>, with a zero diagonal, both tested with the floats'
  \<open>==\<close> (so a NaN cell fails the first test); the result is its upper triangle, row by row.
\<close>

definition squareform :: "pyfloat list list \<Rightarrow> error + pyfloat list" where
  "squareform X =
     (let n = length X in
      if \<not> list_all (\<lambda>i. list_all (\<lambda>j. feq (X ! i ! j) (X ! j ! i)) [0..<n]) [0..<n]
      then Inl (ValueError [Txt ''Distance matrix must be symmetric.''])
      else if \<not> list_all (\<lambda>i. feq (X ! i ! i) 0) [0..<n]
      then Inl (ValueError [Txt ''Distance matrix diagonal must be zero.''])
      else Inr (concat (map (\<lambda>i. map (\<lambda>j. X ! i ! j) [Suc i..<n]) [0..<n])))"

definition partial_pw ::
  "string list option \<Rightarrow> (string \<times> string) list \<Rightarrow> 'r list \<Rightarrow> ('r, 'k) beta_fn metric \<Rightarrow>
     'k kwargs \<Rightarrow> ('r, pyfloat list) run" where
  "partial_pw ids id_pairs counts metric kwargs =
     (case ids of
        None \<Rightarrow> raise (ValueError [Txt ''`ids` must be specified if `id_pairs` is specified''])
      | Some ids \<Rightarrow>
          let all_ids_in_pairs = set (concat (map (\<lambda>(a, b). [a, b]) id_pairs)) in
          if \<not> all_ids_in_pairs \<subseteq> set ids
          then raise (ValueError [Txt ''`id_pairs` are not a subset of `ids`''])
          else
            let hashes = set id_pairs \<union> set (map prod.swap id_pairs) in
            if card hashes \<noteq> length id_pairs * 2
            then raise (ValueError [Txt ''Duplicate ID pairs observed.''])
            else
              (case metric of
                 Name s \<Rightarrow> raise (ValueError [Txt ''`metric` must be callable''])
               | Callable f \<Rightarrow>
                   then_do (fill_dm f kwargs counts (id_index ids) id_pairs
                              (zeros (length ids) (length ids)))
                     (\<lambda>dm. lift (squareform (mat_add dm (mat_transpose dm))))))"

subsection \<open>beta\_diversity\<close>

text \<open>
  \<open>scipy.spatial.distance.pdist\<close>, the default backend: the metric on every pair of rows
  \<open>i < j\<close>, row by row. A name is looked up among scipy's own metrics.
\<close>

definition upper_pairs :: "nat \<Rightarrow> (nat \<times> nat) list" where
  "upper_pairs n = concat (map (\<lambda>i. map (Pair i) [Suc i..<n]) [0..<n])"

definition pdist ::
  "('r, 'k) env \<Rightarrow> 'r list \<Rightarrow> ('r, 'k) beta_fn metric \<Rightarrow> 'k kwargs \<Rightarrow> ('r, pyfloat list) run" where
  "pdist env X metric kwargs =
     (let all_pairs = (\<lambda>f. run_all (\<lambda>(i, j). call (MetricPair (X ! i) (X ! j))
                                               (f (X ! i) (X ! j) kwargs))
                             (upper_pairs (length X))) in
      case metric of
        Callable f \<Rightarrow> all_pairs f
      | Name s \<Rightarrow>
          (case scipy_metric env s of
             None \<Rightarrow> raise (ValueError [Txt ''Unknown Distance Metric: '', Txt s])
           | Some f \<Rightarrow> all_pairs f))"

text \<open>Python's \<open>str\<close> of a non-negative integer.\<close>

function str_nat :: "nat \<Rightarrow> string" where
  "str_nat n =
     (if n < 10 then [''0123456789'' ! n]
      else str_nat (n div 10) @ [''0123456789'' ! (n mod 10)])"
  by pat_completeness auto
termination
  by (relation "measure id") auto

record distance_matrix =
  dm_condensed :: "pyfloat list"
  dm_ids :: "string list"

text \<open>
  Modelled from the spec: the constructor of the distance structure
  (\<open>skbio.stats.distance.DistanceMatrix\<close>), which is not in the file. The spec has it built
  from a condensed vector of length \<open>n * (n - 1) / 2\<close> for \<open>n\<close> samples and an ordered list
  of identifiers, kept in condensed form beside the identifier list; absent identifiers
  default to the row positions as display strings. A structure has at least one sample.
\<close>

definition DistanceMatrix :: "pyfloat list \<Rightarrow> string list option \<Rightarrow> error + distance_matrix" where
  "DistanceMatrix distances ids =
     (case find (\<lambda>n. n * (n - 1) = 2 * length distances) [1..<length distances + 2] of
        None \<Rightarrow> Inl (ValueError [Txt ''Incompatible vector size.''])
      | Some n \<Rightarrow>
          Inr \<lparr>dm_condensed = distances,
               dm_ids = (case ids of None \<Rightarrow> map str_nat [0..<n] | Some l \<Rightarrow> l)\<rparr>)"

text \<open>Lines 312-335: the metric is resolved; the result is (metric, counts, kwargs).\<close>

definition resolve_beta_metric ::
  "('r, 'k) env \<Rightarrow> ('r, 'k) beta_fn metric \<Rightarrow> 'r list \<Rightarrow> bool \<Rightarrow> 'k kwargs \<Rightarrow>
     ('r, ('r, 'k) beta_fn metric \<times> 'r list \<times> 'k kwargs) run" where
  "resolve_beta_metric env metric counts validate kwargs =
     (case metric of
        Name s \<Rightarrow>
          if s = ''unweighted_unifrac'' then
            then_do (call PhyloKwargs (get_phylogenetic_kwargs env counts kwargs))
              (\<lambda>(otu_ids, tree, kwargs).
            then_do (call SetupUnweighted
                       (setup_multiple_unweighted_unifrac env counts otu_ids tree validate))
              (\<lambda>(metric, counts_by_node).
            returns (Callable metric, counts_by_node, kwargs)))
          else if s = ''weighted_unifrac'' then
            (let normalized = (case kwargs ''normalized'' of
                                 Some v \<Rightarrow> v
                               | None \<Rightarrow> normalize_weighted_unifrac_by_default env);
                 kwargs = kwargs(''normalized'' := None) in
             then_do (call PhyloKwargs (get_phylogenetic_kwargs env counts kwargs))
               (\<lambda>(otu_ids, tree, kwargs).
             then_do (call SetupWeighted
                        (setup_multiple_weighted_unifrac env counts otu_ids tree normalized
                           validate))
               (\<lambda>(metric, counts_by_node).
             returns (Callable metric, counts_by_node, kwargs))))
          else returns (Name s, counts, kwargs)
      | Callable f \<Rightarrow> returns (Callable (partial2 f kwargs), counts, Map.empty))"

text \<open>
  Lines 337-345: the backend is chosen. A caller's \<open>pairwise_func\<close> is a collaborator like
  the others; \<open>_partial_pw\<close> is bound to \<open>ids\<close> and \<open>id_pairs\<close>.
\<close>

definition select_backend ::
  "('r, 'k) env \<Rightarrow> string list option \<Rightarrow>
     ('r list \<Rightarrow> ('r, 'k) beta_fn metric \<Rightarrow> 'k kwargs \<Rightarrow> error + pyfloat list) option \<Rightarrow>
     (string \<times> string) list option \<Rightarrow>
     ('r, 'r list \<Rightarrow> ('r, 'k) beta_fn metric \<Rightarrow> 'k kwargs \<Rightarrow> ('r, pyfloat list) run) run" where
  "select_backend env ids pairwise_func id_pairs =
     (case id_pairs of
        Some ps \<Rightarrow>
          (case pairwise_func of
             Some pf \<Rightarrow> raise (ValueError [Txt ''`pairwise_func` is not compatible with `id_pairs`''])
           | None \<Rightarrow> returns (partial_pw ids ps))
      | None \<Rightarrow>
          (case pairwise_func of
             None \<Rightarrow> returns (pdist env)
           | Some pf \<Rightarrow> returns (\<lambda>counts metric kwargs. call PairwiseFunc (pf counts metric kwargs))))"

definition beta_diversity ::
  "('r, 'k) env \<Rightarrow> ('r, 'k) beta_fn metric \<Rightarrow> 'r list \<Rightarrow> string list option \<Rightarrow> bool \<Rightarrow>
     ('r list \<Rightarrow> ('r, 'k) beta_fn metric \<Rightarrow> 'k kwargs \<Rightarrow> error + pyfloat list) option \<Rightarrow>
     (string \<times> string) list option \<Rightarrow> 'k kwargs \<Rightarrow> ('r, distance_matrix) run" where
  "beta_diversity env metric counts ids validate pairwise_func id_pairs kwargs =
     then_do (validated env validate counts ids) (\<lambda>counts.
     then_do (resolve_beta_metric env metric counts validate kwargs) (\<lambda>(metric, counts, kwargs).
     then_do (select_backend env ids pairwise_func id_pairs) (\<lambda>pairwise_func.
     then_do (pairwise_func counts metric kwargs) (\<lambda>distances.
     lift (DistanceMatrix distances ids)))))"

subsection \<open>A concrete set of collaborators\<close>

text \<open>
  Modelled from the spec: the phylogenetic keyword extractor (\<open>_get_phylogenetic_kwargs\<close>
  of \<open>skbio.diversity._util\<close>, which is not in the file):
  \<open>extract(counts, **kwargs) -> (otu_ids, tree, remaining_kwargs)\<close>; it fails if a
  required tree or otu-id keyword is missing, which the spec's taxonomy lists as an input
  error.
\<close>

definition extract_phylogenetic_kwargs ::
  "'r list \<Rightarrow> 'k kwargs \<Rightarrow> error + ('k \<times> 'k \<times> 'k kwargs)" where
  "extract_phylogenetic_kwargs counts kwargs =
     (case kwargs ''otu_ids'' of
        None \<Rightarrow> Inl (ValueError [Txt ''`otu_ids` is required for phylogenetic diversity metrics.''])
      | Some otu_ids \<Rightarrow>
     (case kwargs ''tree'' of
        None \<Rightarrow> Inl (ValueError [Txt ''`tree` is required for phylogenetic diversity metrics.''])
      | Some tree \<Rightarrow> Inr (otu_ids, tree, kwargs(''otu_ids'' := None, ''tree'' := None))))"

text \<open>
  Stand-ins for the metric bodies, used to run the driver on concrete inputs: the number of
  non-zero counts of a row, the city-block distance of two rows, a callable that is not
  symmetric in its arguments (the total of its first one), and a callable whose value is NaN
  (as a ratio of two zero totals is).
\<close>

definition observed :: "(real list, nat) alpha_fn" where
  "observed c kw = Inr (Num (real (length (filter (\<lambda>x. x \<noteq> 0) c))))"

definition cityblock :: "(real list, nat) beta_fn" where
  "cityblock x y kw = Inr (Num (sum_list (map2 (\<lambda>a b. \<bar>a - b\<bar>) x y)))"

definition first_total :: "(real list, nat) beta_fn" where
  "first_total x y kw = Inr (Num (sum_list x))"

definition undefined_distance :: "(real list, nat) beta_fn" where
  "undefined_distance x y kw = Inr NaN"

definition example_env :: "(real list, nat) env" where
  "example_env =
     \<lparr>validate_counts_matrix = (\<lambda>counts ids. Inr counts),
      get_phylogenetic_kwargs = extract_phylogenetic_kwargs,
      setup_faith_pd = (\<lambda>counts otu_ids tree validate single_sample. Inr (counts, 0)),
      faith_pd = observed,
      setup_multiple_unweighted_unifrac = (\<lambda>counts otu_ids tree validate. Inr (cityblock, counts)),
      setup_multiple_weighted_unifrac =
        (\<lambda>counts otu_ids tree normalized validate. Inr (cityblock, counts)),
      normalize_weighted_unifrac_by_default = 0,
      alpha_metric = (\<lambda>name. observed),
      scipy_metric = [''cityblock'' \<mapsto> cityblock]\<rparr>"

text \<open>
  Modelled from the spec: the validator (\<open>_validate_counts_matrix\<close> of
  \<open>skbio.diversity._util\<close>, which is not in the file):
  \<open>validate(counts, ids) -> normalized 2-D matrix\<close>; it fails with an input error if rows
  have unequal length or contain negative values, or on malformed ids (here: not one
  identifier per row).
\<close>

definition validate_counts :: "real list list \<Rightarrow> string list option \<Rightarrow> error + real list list" where
  "validate_counts counts ids =
     (if \<not> list_all (\<lambda>c. length c = length (hd counts)) counts
      then Inl (ValueError [Txt ''All vectors in `counts` must be of equal length.''])
      else if \<not> list_all (list_all (\<lambda>x. 0 \<le> x)) counts
      then Inl (ValueError [Txt ''Counts vector cannot contain negative values.''])
      else
        (case ids of
           None \<Rightarrow> Inr counts
         | Some l \<Rightarrow>
             if length l \<noteq> length counts
             then Inl (ValueError [Txt ''Number of rows in `counts` must be equal to number of provided `ids`.''])
             else Inr counts))"

definition validating_env :: "(real list, nat) env" where
  "validating_env = example_env\<lparr>validate_counts_matrix := validate_counts\<rparr>"

section \<open>Properties\<close>

subsection \<open>Runs\<close>

lemmas run_defs = validated_def select_backend_def call_def returns_def raise_def lift_def

lemma then_do_returns [simp]: "then_do (returns x) f = f x"
  by (simp add: then_do_def returns_def split: prod.splits)

lemma then_do_raise [simp]: "then_do (raise e) f = raise e"
  by (simp add: then_do_def raise_def)

lemma then_do_Inl [simp]: "then_do (t, Inl e) f = (t, Inl e)"
  by (simp add: then_do_def)

lemma then_do_Inr [simp]: "then_do (t, Inr x) f = (t @ fst (f x), snd (f x))"
  by (simp add: then_do_def split: prod.splits)

lemma map_add_self [simp]: "(kw :: 'a \<rightharpoonup> 'b) ++ kw = kw"
  by (rule ext) (simp add: map_add_def split: option.splits)

subsection \<open>Floats\<close>

lemma numeral_pyfloat: "(numeral k :: pyfloat) = Num (numeral k)"
proof (induction k)
  case One
  show ?case by (simp add: one_pyfloat_def)
next
  case (Bit0 k)
  have "(numeral (num.Bit0 k) :: pyfloat) = numeral k + numeral k"
    by (rule numeral_Bit0)
  also have "\<dots> = Num (numeral k) + Num (numeral k)"
    by (simp only: Bit0.IH)
  also have "\<dots> = Num (numeral k + numeral k)"
    by (simp add: plus_pyfloat_def)
  also have "\<dots> = Num (numeral (num.Bit0 k))"
    by (simp only: numeral_Bit0)
  finally show ?case .
next
  case (Bit1 k)
  have "(numeral (num.Bit1 k) :: pyfloat) = numeral k + numeral k + 1"
    by (rule numeral_Bit1)
  also have "\<dots> = Num (numeral k) + Num (numeral k) + Num 1"
    by (simp only: Bit1.IH one_pyfloat_def)
  also have "\<dots> = Num (numeral k + numeral k + 1)"
    by (simp add: plus_pyfloat_def)
  also have "\<dots> = Num (numeral (num.Bit1 k))"
    by (simp only: numeral_Bit1)
  finally show ?case .
qed

lemmas pyfloat_simps = zero_pyfloat_def one_pyfloat_def plus_pyfloat_def numeral_pyfloat

lemma feq_self: "feq x x \<longleftrightarrow> x \<noteq> NaN"
  by (simp add: feq_def)

lemma fadd_NaN: "x + y \<noteq> NaN \<Longrightarrow> x \<noteq> NaN \<and> y \<noteq> (NaN :: pyfloat)"
  by (cases x; cases y) (simp_all add: plus_pyfloat_def)

subsection \<open>The registry\<close>

lemma map_of_tabulate:
  "map_of (map (\<lambda>n. (n, f n)) xs) s = (if s \<in> set xs then Some (f s) else None)"
  by (induction xs) auto

lemma registry_names:
  "get_alpha_diversity_metric_map env s =
     (if s \<in> set alpha_names then Some (alpha_metric env s) else None)"
  unfolding get_alpha_diversity_metric_map_def by (rule map_of_tabulate)

text \<open>
  C10. \<open>get_beta_diversity_metrics\<close> returns exactly the sorted two-element list
  \<open>['unweighted_unifrac', 'weighted_unifrac']\<close>, and the strings \<open>beta_diversity\<close> takes as a
  metric are more than these two: a string that is not listed is not rejected, the metric
  resolution hands it on unchanged, with the counts and the keywords, to the pairwise backend.
\<close>

theorem get_beta_diversity_metrics_two_names:
  "get_beta_diversity_metrics = [''unweighted_unifrac'', ''weighted_unifrac''] \<and>
   (s \<notin> set get_beta_diversity_metrics \<longrightarrow>
      resolve_beta_metric env (Name s) counts validate kwargs = returns (Name s, counts, kwargs) \<and>
      beta_diversity env (Name s) counts ids validate pairwise_func id_pairs kwargs =
        then_do (validated env validate counts ids) (\<lambda>counts.
        then_do (select_backend env ids pairwise_func id_pairs) (\<lambda>backend.
        then_do (backend counts (Name s) kwargs) (\<lambda>distances.
        lift (DistanceMatrix distances ids)))))"
proof -
  have l: "get_beta_diversity_metrics = [''unweighted_unifrac'', ''weighted_unifrac'']"
    unfolding get_beta_diversity_metrics_def by code_simp
  have r: "resolve_beta_metric env (Name s) counts validate kwargs = returns (Name s, counts, kwargs)"
    if "s \<notin> set get_beta_diversity_metrics" for counts
    using that unfolding l by (simp add: resolve_beta_metric_def)
  show ?thesis
    using l r by (simp add: beta_diversity_def)
qed

theorem get_beta_diversity_metrics_two_names_witness:
  "''cityblock'' \<notin> set get_beta_diversity_metrics \<and>
   beta_diversity example_env (Name ''cityblock'') [[1, 2], [3, 5]] None True None None Map.empty =
     ([Validate, MetricPair [1, 2] [3, 5]],
      Inr \<lparr>dm_condensed = [5], dm_ids = [''0'', ''1'']\<rparr>)"
proof -
  note t = get_beta_diversity_metrics_two_names
    [of "''cityblock''" example_env "[[1, 2], [3, 5]]" True Map.empty None None None]
  from t have l: "get_beta_diversity_metrics = [''unweighted_unifrac'', ''weighted_unifrac'']"
    by (rule conjunct1)
  have n: "''cityblock'' \<notin> set get_beta_diversity_metrics"
    unfolding l by simp
  from t n have e:
    "beta_diversity example_env (Name ''cityblock'') [[1, 2], [3, 5]] None True None None Map.empty =
       then_do (validated example_env True [[1, 2], [3, 5]] None) (\<lambda>counts.
       then_do (select_backend example_env None None None) (\<lambda>backend.
       then_do (backend counts (Name ''cityblock'') Map.empty) (\<lambda>distances.
       lift (DistanceMatrix distances None))))"
    by blast
  show ?thesis
    unfolding e using n
    by (simp add: run_defs example_env_def pdist_def upper_pairs_def upt_conv_Cons cityblock_def
        DistanceMatrix_def str_nat.simps pyfloat_simps)
qed

subsection \<open>The unknown alpha metric\<close>

text \<open>
  C5 (as the code has it). A metric argument of \<open>alpha_diversity\<close> that is a string other
  than \<open>'faith_pd'\<close> and not a name of the registry is refused: the call ends in an
  exception, and no metric and no set-up routine was called (the only collaborator that may
  have run is the validator). The validation of lines 164-165 comes before the dispatch:
  when it is off or accepts the counts, the exception is the \<open>ValueError\<close> whose message
  names the metric, \<open>'Unknown metric provided: %r.'\<close>; when it refuses the counts, the
  exception is the validator's.
\<close>

theorem alpha_diversity_unknown_metric:
  assumes "s \<noteq> ''faith_pd''" and "get_alpha_diversity_metric_map env s = None"
  shows "set (fst (alpha_diversity env (Name s) counts ids validate kwargs)) \<subseteq> {Validate} \<and>
   (\<exists>e. snd (alpha_diversity env (Name s) counts ids validate kwargs) = Inl e) \<and>
   ((validate \<longrightarrow> (\<exists>c. validate_counts_matrix env counts ids = Inr c)) \<longrightarrow>
      snd (alpha_diversity env (Name s) counts ids validate kwargs) =
        Inl (ValueError [Txt ''Unknown metric provided: '', Repr s, Txt ''.''])) \<and>
   (validate \<and> validate_counts_matrix env counts ids = Inl e \<longrightarrow>
      snd (alpha_diversity env (Name s) counts ids validate kwargs) = Inl e)"
proof -
  have r: "resolve_alpha_metric env (Name s) c validate kwargs =
      raise (ValueError [Txt ''Unknown metric provided: '', Repr s, Txt ''.''])" for c
    using assms by (simp add: resolve_alpha_metric_def)
  show ?thesis
  proof (cases "validated env validate counts ids")
    case (Pair t res)
    then show ?thesis
      by (cases res) (auto simp: alpha_diversity_def r raise_def validated_def call_def
          returns_def split: if_splits)
  qed
qed

theorem alpha_diversity_unknown_metric_witness:
  "''not_a_metric'' \<noteq> ''faith_pd'' \<and>
   get_alpha_diversity_metric_map example_env ''not_a_metric'' = None \<and>
   alpha_diversity example_env (Name ''not_a_metric'') [[1, 3], [0, 1]] None True Map.empty =
     ([Validate],
      Inl (ValueError [Txt ''Unknown metric provided: '', Repr ''not_a_metric'', Txt ''.'']))"
proof -
  have n: "get_alpha_diversity_metric_map example_env ''not_a_metric'' = None"
    by (simp add: registry_names alpha_names_def)
  have v: "validate_counts_matrix example_env [[1, 3], [0, 1]] None = Inr [[1, 3], [0, 1]]"
    by (simp add: example_env_def)
  have t: "fst (alpha_diversity example_env (Name ''not_a_metric'') [[1, 3], [0, 1]] None True
              Map.empty) = [Validate]"
    by (simp add: alpha_diversity_def validated_def call_def v resolve_alpha_metric_def n raise_def)
  show ?thesis
    using alpha_diversity_unknown_metric
      [of "''not_a_metric''" example_env "[[1, 3], [0, 1]]" None True Map.empty] n v t
    by (simp add: prod_eq_iff)
qed

text \<open>
  C5 as stated fails when the validation refuses the counts: the error raised is the
  validator's, which does not name the metric.
\<close>

theorem alpha_diversity_validation_before_dispatch:
  "get_alpha_diversity_metric_map validating_env ''not_a_metric'' = None \<and>
   alpha_diversity validating_env (Name ''not_a_metric'') [[1, - 3], [0, 1]] None True Map.empty =
     ([Validate], Inl (ValueError [Txt ''Counts vector cannot contain negative values.''])) \<and>
   snd (alpha_diversity validating_env (Name ''not_a_metric'') [[1, - 3], [0, 1]] None True
          Map.empty) \<noteq>
     Inl (ValueError [Txt ''Unknown metric provided: '', Repr ''not_a_metric'', Txt ''.''])"
  by (simp add: registry_names alpha_names_def alpha_diversity_def validated_def call_def
      validating_env_def example_env_def validate_counts_def)

subsection \<open>The checks of the restricted pairwise computer\<close>

text \<open>
  The set of the pairs and of their reverses has twice as many elements as there are pairs
  exactly when no pair occurs twice, in either orientation, and no pair is its own reverse.
\<close>

lemma card_hashes:
  "card (set ps \<union> set (map prod.swap ps)) = length ps * 2 \<longleftrightarrow> distinct (ps @ map prod.swap ps)"
proof -
  have "set ps \<union> set (map prod.swap ps) = set (ps @ map prod.swap ps)" by simp
  moreover have "length (ps @ map prod.swap ps) = length ps * 2" by simp
  ultimately show ?thesis
    by (metis card_distinct distinct_card)
qed

lemma self_pair_not_distinct:
  assumes "(a, a) \<in> set ps"
  shows "\<not> distinct (ps @ map prod.swap ps)"
proof -
  have "(a, a) \<in> set (map prod.swap ps)" using assms by force
  with assms show ?thesis by auto
qed

lemma repeated_pair_not_distinct:
  assumes "i < length ps" "j < length ps" "i \<noteq> j"
    and "ps ! i = ps ! j \<or> ps ! i = prod.swap (ps ! j)"
  shows "\<not> distinct (ps @ map prod.swap ps)"
proof (cases "ps ! i = ps ! j")
  case True
  with assms have "\<not> distinct ps" by (auto simp: distinct_conv_nth)
  then show ?thesis by simp
next
  case False
  with assms have "ps ! i = prod.swap (ps ! j)" by simp
  moreover have "ps ! i \<in> set ps" "ps ! j \<in> set ps" using assms by simp_all
  ultimately have "ps ! i \<in> set ps \<inter> set (map prod.swap ps)" by force
  then show ?thesis by auto
qed

lemma partial_pw_refused:
  assumes "card (set ps \<union> set (map prod.swap ps)) \<noteq> length ps * 2"
  shows "fst (partial_pw ids ps counts metric kwargs) = []"
    and "\<exists>m. snd (partial_pw ids ps counts metric kwargs) = Inl (ValueError m)"
    and "ids = Some l \<and> set (concat (map (\<lambda>(a, b). [a, b]) ps)) \<subseteq> set l \<longrightarrow>
      snd (partial_pw ids ps counts metric kwargs) =
        Inl (ValueError [Txt ''Duplicate ID pairs observed.''])"
  using assms by (simp_all add: partial_pw_def Let_def raise_def split: option.splits)

lemma partial_pw_Name:
  "partial_pw ids ps counts (Name s) kwargs =
     raise (ValueError
       (case ids of
          None \<Rightarrow> [Txt ''`ids` must be specified if `id_pairs` is specified'']
        | Some l \<Rightarrow>
            if \<not> set (concat (map (\<lambda>(a, b). [a, b]) ps)) \<subseteq> set l
            then [Txt ''`id_pairs` are not a subset of `ids`'']
            else if card (set ps \<union> set (map prod.swap ps)) \<noteq> length ps * 2
            then [Txt ''Duplicate ID pairs observed.'']
            else [Txt ''`metric` must be callable'']))"
  by (simp add: partial_pw_def Let_def split: option.splits)

text \<open>
  C6. When \<open>id_pairs\<close> holds the same unordered pair at two positions, in the same or in the
  opposite orientation, the set of the pairs and their reverses has not twice as many
  elements as there are pairs, and \<open>_partial_pw\<close> ends in a \<open>ValueError\<close> without having
  called the metric; the identifiers being given and the pairs being among them, it is
  \<open>'Duplicate ID pairs observed.'\<close>.
\<close>

theorem partial_pw_repeated_pair_refused:
  assumes "i < length id_pairs" and "j < length id_pairs" and "i \<noteq> j"
    and "id_pairs ! i = id_pairs ! j \<or> id_pairs ! i = prod.swap (id_pairs ! j)"
  shows "card (set id_pairs \<union> set (map prod.swap id_pairs)) \<noteq> length id_pairs * 2 \<and>
   fst (partial_pw ids id_pairs counts metric kwargs) = [] \<and>
   (\<exists>m. snd (partial_pw ids id_pairs counts metric kwargs) = Inl (ValueError m)) \<and>
   (ids = Some l \<and> set (concat (map (\<lambda>(a, b). [a, b]) id_pairs)) \<subseteq> set l \<longrightarrow>
      snd (partial_pw ids id_pairs counts metric kwargs) =
        Inl (ValueError [Txt ''Duplicate ID pairs observed.'']))"
proof -
  have nd: "\<not> distinct (id_pairs @ map prod.swap id_pairs)"
    using assms by (rule repeated_pair_not_distinct)
  then have c: "card (set id_pairs \<union> set (map prod.swap id_pairs)) \<noteq> length id_pairs * 2"
    using card_hashes [of id_pairs] by blast
  from c partial_pw_refused [OF c] show ?thesis by blast
qed

theorem partial_pw_repeated_pair_refused_witness:
  "(0::nat) < length [(''a'', ''b''), (''b'', ''a'')] \<and>
   (1::nat) < length [(''a'', ''b''), (''b'', ''a'')] \<and> (0::nat) \<noteq> 1 \<and>
   [(''a'', ''b''), (''b'', ''a'')] ! 0 = prod.swap ([(''a'', ''b''), (''b'', ''a'')] ! 1) \<and>
   partial_pw (Some [''a'', ''b'']) [(''a'', ''b''), (''b'', ''a'')] [[1], [2]]
       (Callable cityblock) Map.empty =
     ([], Inl (ValueError [Txt ''Duplicate ID pairs observed.'']))"
  using partial_pw_repeated_pair_refused
    [of 0 "[(''a'', ''b''), (''b'', ''a'')]" 1 "Some [''a'', ''b'']" "[[1], [2]]"
        "Callable cityblock" Map.empty "[''a'', ''b'']"]
  by (simp add: prod_eq_iff)

text \<open>
  C7. When \<open>id_pairs\<close> holds a self-pair \<open>(a, a)\<close>, \<open>_partial_pw\<close> ends in a \<open>ValueError\<close>
  without having called the metric: the pair is its own reverse, so the set of the pairs
  and their reverses is too small, and the identifiers being given and the pairs being among
  them, the error is \<open>'Duplicate ID pairs observed.'\<close>.
\<close>

theorem partial_pw_self_pair_refused:
  assumes "(a, a) \<in> set id_pairs"
  shows "fst (partial_pw ids id_pairs counts metric kwargs) = [] \<and>
   (\<exists>m. snd (partial_pw ids id_pairs counts metric kwargs) = Inl (ValueError m)) \<and>
   (ids = Some l \<and> set (concat (map (\<lambda>(a, b). [a, b]) id_pairs)) \<subseteq> set l \<longrightarrow>
      snd (partial_pw ids id_pairs counts metric kwargs) =
        Inl (ValueError [Txt ''Duplicate ID pairs observed.'']))"
proof -
  have "card (set id_pairs \<union> set (map prod.swap id_pairs)) \<noteq> length id_pairs * 2"
    using self_pair_not_distinct [OF assms] card_hashes [of id_pairs] by blast
  from partial_pw_refused [OF this] show ?thesis by blast
qed

theorem partial_pw_self_pair_refused_witness:
  "(''a'', ''a'') \<in> set [(''a'', ''a'')] \<and>
   partial_pw (Some [''a'']) [(''a'', ''a'')] [[1]] (Callable cityblock) Map.empty =
     ([], Inl (ValueError [Txt ''Duplicate ID pairs observed.'']))"
  using partial_pw_self_pair_refused
    [of "''a''" "[(''a'', ''a'')]" "Some [''a'']" "[[1]]" "Callable cityblock" Map.empty "[''a'']"]
  by (simp add: prod_eq_iff)

text \<open>
  C8. When the metric given to \<open>_partial_pw\<close> is a name and not a callable, the call ends in
  a \<open>ValueError\<close> and the metric was never applied; the three earlier checks passing, the
  error is \<open>'`metric` must be callable'\<close>.
\<close>

theorem partial_pw_metric_name_refused:
  "fst (partial_pw ids id_pairs counts (Name s) kwargs) = [] \<and>
   (\<exists>m. snd (partial_pw ids id_pairs counts (Name s) kwargs) = Inl (ValueError m)) \<and>
   (ids = Some l \<and> set (concat (map (\<lambda>(a, b). [a, b]) id_pairs)) \<subseteq> set l \<and>
    card (set id_pairs \<union> set (map prod.swap id_pairs)) = length id_pairs * 2 \<longrightarrow>
      snd (partial_pw ids id_pairs counts (Name s) kwargs) =
        Inl (ValueError [Txt ''`metric` must be callable'']))"
  by (simp add: partial_pw_Name raise_def)

theorem partial_pw_metric_name_refused_witness:
  "partial_pw (Some [''a'', ''b'']) [(''a'', ''b'')] [[1], [2]] (Name ''braycurtis'')
     (Map.empty :: nat kwargs) =
   ([] :: real list event list, Inl (ValueError [Txt ''`metric` must be callable'']))"
  using partial_pw_metric_name_refused
    [of "Some [''a'', ''b'']" "[(''a'', ''b'')]" "[[1], [2::real]]" "''braycurtis''"
        "Map.empty :: nat kwargs" "[''a'', ''b'']"]
  by (simp add: prod_eq_iff)

subsection \<open>Which collaborators a run calls\<close>















subsection \<open>alpha\_diversity on a registry name\<close>

lemma run_all_total:
  assumes "\<And>c. c \<in> set xs \<Longrightarrow> f c = Inr (g c)"
  shows "run_all (\<lambda>c. call (ev c) (f c)) xs = (map ev xs, Inr (map g xs))"
  using assms by (induction xs) (simp_all add: returns_def call_def)

lemma alpha_diversity_run:
  assumes "validated env validate X ids = (t1, Inr X')"
    and "resolve_alpha_metric env metric X' validate kwargs = (t2, Inr (Xr, f, kw'))"
    and "\<And>c. c \<in> set Xr \<Longrightarrow> f c kw' = Inr (g c)"
  shows "alpha_diversity env metric X ids validate kwargs =
     (t1 @ t2 @ map MetricRow Xr, Series (map g Xr) ids)"
  using assms(1,2) run_all_total [of Xr "\<lambda>c. f c kw'" g MetricRow, OF assms(3)]
  by (simp add: alpha_diversity_def lift_def)


text \<open>
  C4 (as the code has it). For a registry name other than \<open>'faith_pd'\<close>, counts that pass the
  optional validation and a metric that returns a value on every row, \<open>alpha_diversity\<close>
  returns a series with one value per row, in row order, whose index is \<open>ids\<close> when given
  (one per row) and pandas' \<open>RangeIndex(n)\<close> otherwise. For \<open>'faith_pd'\<close> the same holds over
  the rows of the node-level matrix, once the keywords \<open>otu_ids\<close> and \<open>tree\<close> were found
  and the set-up succeeded.
\<close>

theorem alpha_diversity_registry_metric:
  "(get_alpha_diversity_metric_map env m = Some f \<and> m \<noteq> ''faith_pd'' \<and>
    validated env validate X ids = (t, Inr X') \<and>
    (\<forall>c \<in> set X'. f c kwargs = Inr (g c)) \<and>
    (ids = None \<or> ids = Some l \<and> length l = length X') \<longrightarrow>
      alpha_diversity env (Name m) X ids validate kwargs =
        (t @ map MetricRow X',
         Inr \<lparr>series_values = map g X',
              series_index = (case ids of None \<Rightarrow> RangeIndex (length X') | Some l \<Rightarrow> Index l)\<rparr>)) \<and>
   (validated env validate X ids = (t, Inr X') \<and>
    get_phylogenetic_kwargs env X' kwargs = Inr (otu_ids, tree, kw') \<and>
    setup_faith_pd env X' otu_ids tree validate False = Inr (Xn, branch_lengths) \<and>
    (\<forall>c \<in> set Xn. faith_pd env c ([''branch_lengths'' \<mapsto> branch_lengths] ++ kw') = Inr (g c)) \<and>
    (ids = None \<or> ids = Some l \<and> length l = length Xn) \<longrightarrow>
      alpha_diversity env (Name ''faith_pd'') X ids validate kwargs =
        (t @ [PhyloKwargs, SetupFaithPD] @ map MetricRow Xn,
         Inr \<lparr>series_values = map g Xn,
              series_index = (case ids of None \<Rightarrow> RangeIndex (length Xn) | Some l \<Rightarrow> Index l)\<rparr>))"
proof (intro conjI impI; elim conjE)
  assume m: "get_alpha_diversity_metric_map env m = Some f" "m \<noteq> ''faith_pd''"
    and v: "validated env validate X ids = (t, Inr X')"
    and g: "\<forall>c \<in> set X'. f c kwargs = Inr (g c)"
    and i: "ids = None \<or> ids = Some l \<and> length l = length X'"
  have r: "resolve_alpha_metric env (Name m) X' validate kwargs =
      ([], Inr (X', partial f kwargs, kwargs))"
    using m by (simp add: resolve_alpha_metric_def returns_def)
  have "alpha_diversity env (Name m) X ids validate kwargs =
      (t @ [] @ map MetricRow X', Series (map g X') ids)"
    using v r by (rule alpha_diversity_run) (simp add: partial_def g)
  with i show "alpha_diversity env (Name m) X ids validate kwargs =
        (t @ map MetricRow X',
         Inr \<lparr>series_values = map g X',
              series_index = (case ids of None \<Rightarrow> RangeIndex (length X') | Some l \<Rightarrow> Index l)\<rparr>)"
    by (auto simp: Series_def)
next
  assume v: "validated env validate X ids = (t, Inr X')"
    and k: "get_phylogenetic_kwargs env X' kwargs = Inr (otu_ids, tree, kw')"
    and s: "setup_faith_pd env X' otu_ids tree validate False = Inr (Xn, branch_lengths)"
    and g: "\<forall>c \<in> set Xn. faith_pd env c ([''branch_lengths'' \<mapsto> branch_lengths] ++ kw') = Inr (g c)"
    and i: "ids = None \<or> ids = Some l \<and> length l = length Xn"
  have r: "resolve_alpha_metric env (Name ''faith_pd'') X' validate kwargs =
      ([PhyloKwargs, SetupFaithPD],
       Inr (Xn, partial (faith_pd env) [''branch_lengths'' \<mapsto> branch_lengths], kw'))"
    using k s by (simp add: resolve_alpha_metric_def returns_def call_def)
  have "alpha_diversity env (Name ''faith_pd'') X ids validate kwargs =
      (t @ [PhyloKwargs, SetupFaithPD] @ map MetricRow Xn, Series (map g Xn) ids)"
    using v r by (rule alpha_diversity_run) (simp add: partial_def g)
  with i show "alpha_diversity env (Name ''faith_pd'') X ids validate kwargs =
        (t @ [PhyloKwargs, SetupFaithPD] @ map MetricRow Xn,
         Inr \<lparr>series_values = map g Xn,
              series_index = (case ids of None \<Rightarrow> RangeIndex (length Xn) | Some l \<Rightarrow> Index l)\<rparr>)"
    by (auto simp: Series_def)
qed

theorem alpha_diversity_registry_metric_witness:
  "get_alpha_diversity_metric_map example_env ''observed_otus'' = Some observed \<and>
   alpha_diversity example_env (Name ''observed_otus'') [[1, 3], [1, 1], [0, 1]]
       (Some [''s1'', ''s2'', ''s3'']) True Map.empty =
     ([Validate, MetricRow [1, 3], MetricRow [1, 1], MetricRow [0, 1]],
      Inr \<lparr>series_values = [2, 2, 1], series_index = Index [''s1'', ''s2'', ''s3'']\<rparr>) \<and>
   alpha_diversity example_env (Name ''faith_pd'') [[1, 3], [0, 1]] None False
       [''otu_ids'' \<mapsto> 0, ''tree'' \<mapsto> 0] =
     ([PhyloKwargs, SetupFaithPD, MetricRow [1, 3], MetricRow [0, 1]],
      Inr \<lparr>series_values = [2, 1], series_index = RangeIndex 2\<rparr>)"
proof -
  let ?g = "\<lambda>c :: real list. Num (real (length (filter (\<lambda>x. x \<noteq> 0) c)))"
  have m: "get_alpha_diversity_metric_map example_env ''observed_otus'' = Some observed"
    by (simp add: registry_names alpha_names_def example_env_def)
  have v: "validated example_env True [[1, 3], [1, 1], [0, 1]] (Some [''s1'', ''s2'', ''s3'']) =
      ([Validate], Inr [[1, 3], [1, 1], [0, 1]])"
    by (simp add: validated_def call_def example_env_def)
  have g: "\<forall>c \<in> set [[1, 3], [1, 1], [0, 1]]. observed c Map.empty = Inr (?g c)"
    by (simp add: observed_def)
  have a: "alpha_diversity example_env (Name ''observed_otus'') [[1, 3], [1, 1], [0, 1]]
       (Some [''s1'', ''s2'', ''s3'']) True Map.empty =
     ([Validate, MetricRow [1, 3], MetricRow [1, 1], MetricRow [0, 1]],
      Inr \<lparr>series_values = [2, 2, 1], series_index = Index [''s1'', ''s2'', ''s3'']\<rparr>)"
    using alpha_diversity_registry_metric
      [of example_env "''observed_otus''" observed True "[[1, 3], [1, 1], [0, 1]]"
          "Some [''s1'', ''s2'', ''s3'']" "[Validate]" "[[1, 3], [1, 1], [0, 1]]" Map.empty ?g
          "[''s1'', ''s2'', ''s3'']"] m v g
    by (simp add: pyfloat_simps)
  have v': "validated example_env False [[1, 3], [0, 1]] None = ([], Inr [[1, 3], [0, 1]])"
    by (simp add: validated_def returns_def)
  have k: "get_phylogenetic_kwargs example_env [[1, 3], [0, 1]] [''otu_ids'' \<mapsto> 0, ''tree'' \<mapsto> 0] =
      Inr (0, 0, Map.empty)"
    by (simp add: example_env_def extract_phylogenetic_kwargs_def)
  have s: "setup_faith_pd example_env [[1, 3], [0, 1]] 0 0 False False = Inr ([[1, 3], [0, 1]], 0)"
    by (simp add: example_env_def)
  have g': "\<forall>c \<in> set [[1, 3], [0, 1]].
      faith_pd example_env c ([''branch_lengths'' \<mapsto> 0] ++ Map.empty) = Inr (?g c)"
    by (simp add: example_env_def observed_def)
  have b: "alpha_diversity example_env (Name ''faith_pd'') [[1, 3], [0, 1]] None False
       [''otu_ids'' \<mapsto> 0, ''tree'' \<mapsto> 0] =
     ([PhyloKwargs, SetupFaithPD, MetricRow [1, 3], MetricRow [0, 1]],
      Inr \<lparr>series_values = [2, 1], series_index = RangeIndex 2\<rparr>)"
    using alpha_diversity_registry_metric
      [of example_env _ _ False "[[1, 3], [0, 1]]" None "[]" "[[1, 3], [0, 1]]"
          "[''otu_ids'' \<mapsto> 0, ''tree'' \<mapsto> 0]" ?g _ 0 0 Map.empty "[[1, 3], [0, 1]]" 0]
      v' k s g'
    by (simp add: pyfloat_simps)
  from m a b show ?thesis by blast
qed


text \<open>
  C4 as stated fails for the registry name \<open>'faith_pd'\<close>: called on a valid matrix alone, the
  keyword extraction raises and no series is returned.
\<close>

theorem alpha_diversity_faith_pd_without_tree:
  "get_alpha_diversity_metric_map example_env ''faith_pd'' = Some observed \<and>
   alpha_diversity example_env (Name ''faith_pd'') [[1, 3], [1, 1], [0, 1]] None True Map.empty =
     ([Validate, PhyloKwargs],
      Inl (ValueError [Txt ''`otu_ids` is required for phylogenetic diversity metrics.'']))"
  by (simp add: registry_names alpha_names_def alpha_diversity_def run_defs
      resolve_alpha_metric_def example_env_def extract_phylogenetic_kwargs_def)


subsection \<open>Default identifiers\<close>

lemma pronic_less:
  assumes "1 \<le> a" and "a < (b::nat)"
  shows "a * (a - 1) < b * (b - 1)"
proof -
  have "a * (a - 1) \<le> a * (b - 1)" using assms by simp
  also have "\<dots> < b * (b - 1)" using assms by simp
  finally show ?thesis .
qed

lemma find_dimension:
  assumes "1 \<le> r" and "2 * L = r * (r - 1)"
  shows "find (\<lambda>n. n * (n - 1) = 2 * L) [1..<L + 2] = Some r"
proof -
  have le: "r \<le> L + 1"
  proof (rule ccontr)
    assume "\<not> r \<le> L + 1"
    then have "L + 1 < r" by simp
    then have "(L + 1) * (L + 1 - 1) < r * (r - 1)" by (intro pronic_less) simp_all
    with assms(2) have "(L + 1) * L < 2 * L" by simp
    then show False by (cases L) simp_all
  qed
  have u: "n * (n - 1) \<noteq> 2 * L" if "1 \<le> n" "n < r" for n
    using pronic_less [OF that] assms(2) by simp
  have len: "length [1..<L + 2] = L + 1"
    by (simp only: length_upt)
  have nth: "[1..<L + 2] ! j = 1 + j" if "j < L + 1" for j
    by (rule nth_upt) (use that in arith)
  show ?thesis
    unfolding find_Some_iff
  proof (intro exI [of _ "r - 1"] conjI allI impI)
    show "r - 1 < length [1..<L + 2]" using le assms(1) unfolding len by arith
    have "[1..<L + 2] ! (r - 1) = r" using le assms(1) nth [of "r - 1"] by simp
    then show "[1..<L + 2] ! (r - 1) * ([1..<L + 2] ! (r - 1) - 1) = 2 * L"
      and "r = [1..<L + 2] ! (r - 1)"
      using assms(2) by simp_all
    show "\<not> [1..<L + 2] ! j * ([1..<L + 2] ! j - 1) = 2 * L" if "j < r - 1" for j
    proof -
      have "[1..<L + 2] ! j = 1 + j" using that le nth [of j] by simp
      then show ?thesis using u [of "1 + j"] that by simp
    qed
  qed
qed


text \<open>
  C9 (as the code has it). With \<open>ids\<close> absent, a series returned by \<open>alpha_diversity\<close> has
  pandas' default index, the integer positions \<open>RangeIndex(n)\<close> of its \<open>n\<close> values, not
  strings; a distance structure returned by \<open>beta_diversity\<close> over \<open>r\<close> samples (a condensed
  vector of \<open>r * (r - 1) / 2\<close> distances) has the identifiers \<open>str(0), ..., str(r - 1)\<close>,
  in this order.
\<close>

theorem default_identifiers:
  "(snd (alpha_diversity env metric counts None validate kwargs) = Inr s \<longrightarrow>
      series_index s = RangeIndex (length (series_values s))) \<and>
   (snd (beta_diversity env' metric' counts' None validate' pairwise_func id_pairs kwargs') = Inr d \<and>
    1 \<le> r \<and> 2 * length (dm_condensed d) = r * (r - 1) \<longrightarrow>
      dm_ids d = map str_nat [0..<r])"
proof (intro conjI impI; (elim conjE)?)
  assume a: "snd (alpha_diversity env metric counts None validate kwargs) = Inr s"
  obtain t1 r1 where v: "validated env validate counts None = (t1, r1)"
    by (cases "validated env validate counts None")
  show "series_index s = RangeIndex (length (series_values s))"
  proof (cases r1)
    case (Inl e)
    with a v show ?thesis by (simp add: alpha_diversity_def)
  next
    case (Inr c)
    obtain t2 r2 where m: "resolve_alpha_metric env metric c validate kwargs = (t2, r2)"
      by (cases "resolve_alpha_metric env metric c validate kwargs")
    show ?thesis
    proof (cases r2)
      case (Inl e)
      with a v Inr m show ?thesis by (simp add: alpha_diversity_def)
    next
      case r: (Inr x)
      obtain cs f kw where x: "x = (cs, f, kw)" by (cases x)
      obtain t3 r3 where l: "run_all (\<lambda>c. call (MetricRow c) (f c kw)) cs = (t3, r3)"
        by (cases "run_all (\<lambda>c. call (MetricRow c) (f c kw)) cs")
      from a v Inr m r x l show ?thesis
        by (cases r3) (auto simp: alpha_diversity_def lift_def Series_def)
    qed
  qed
next
  assume b: "snd (beta_diversity env' metric' counts' None validate' pairwise_func id_pairs kwargs') = Inr d"
    and r: "1 \<le> r" "2 * length (dm_condensed d) = r * (r - 1)"
  have dm: "dm_ids d = map str_nat [0..<r]" if c: "DistanceMatrix ds None = Inr d" for ds
  proof -
    from c obtain n where n: "find (\<lambda>n. n * (n - 1) = 2 * length ds) [1..<length ds + 2] = Some n"
      and d: "d = \<lparr>dm_condensed = ds, dm_ids = map str_nat [0..<n]\<rparr>"
      unfolding DistanceMatrix_def by (auto split: option.splits)
    from d r(2) have "2 * length ds = r * (r - 1)" by simp
    from find_dimension [OF r(1) this] n have "n = r" by simp
    with d show ?thesis by simp
  qed
  obtain t1 r1 where v: "validated env' validate' counts' None = (t1, r1)"
    by (cases "validated env' validate' counts' None")
  show "dm_ids d = map str_nat [0..<r]"
  proof (cases r1)
    case (Inl e)
    with b v show ?thesis by (simp add: beta_diversity_def)
  next
    case (Inr c)
    obtain t2 r2 where m: "resolve_beta_metric env' metric' c validate' kwargs' = (t2, r2)"
      by (cases "resolve_beta_metric env' metric' c validate' kwargs'")
    show ?thesis
    proof (cases r2)
      case (Inl e)
      with b v Inr m show ?thesis by (simp add: beta_diversity_def)
    next
      case r2: (Inr x)
      obtain mt cs kw where x: "x = (mt, cs, kw)" by (cases x)
      obtain t3 r3 where sb: "select_backend env' None pairwise_func id_pairs = (t3, r3)"
        by (cases "select_backend env' None pairwise_func id_pairs")
      show ?thesis
      proof (cases r3)
        case (Inl e)
        with b v Inr m r2 x sb show ?thesis by (simp add: beta_diversity_def)
      next
        case r3: (Inr backend)
        obtain t4 r4 where bk: "backend cs mt kw = (t4, r4)" by (cases "backend cs mt kw")
        from b v Inr m r2 x sb r3 bk show ?thesis
          by (cases r4) (auto simp: beta_diversity_def lift_def dest: dm)
      qed
    qed
  qed
qed

theorem default_identifiers_witness:
  "snd (alpha_diversity example_env (Name ''observed_otus'') [[1, 3], [0, 1]] None True Map.empty) =
     Inr \<lparr>series_values = [2, 1], series_index = RangeIndex 2\<rparr> \<and>
   series_index \<lparr>series_values = [2, 1], series_index = RangeIndex 2\<rparr> = RangeIndex 2 \<and>
   snd (beta_diversity example_env (Callable cityblock) [[1, 2], [3, 5]] None True None None
          Map.empty) =
     Inr \<lparr>dm_condensed = [5], dm_ids = [''0'', ''1'']\<rparr> \<and>
   dm_ids \<lparr>dm_condensed = [5], dm_ids = [''0'', ''1'']\<rparr> = map str_nat [0..<2]"
proof -
  have a: "snd (alpha_diversity example_env (Name ''observed_otus'') [[1, 3], [0, 1]] None True
      Map.empty) = Inr \<lparr>series_values = [2, 1], series_index = RangeIndex 2\<rparr>"
    by (simp add: registry_names alpha_names_def alpha_diversity_def run_defs
        resolve_alpha_metric_def example_env_def partial_def observed_def Series_def pyfloat_simps)
  have b: "snd (beta_diversity example_env (Callable cityblock) [[1, 2], [3, 5]] None True None
      None Map.empty) = Inr \<lparr>dm_condensed = [5], dm_ids = [''0'', ''1'']\<rparr>"
    by (simp add: beta_diversity_def run_defs example_env_def resolve_beta_metric_def pdist_def
        upper_pairs_def upt_conv_Cons cityblock_def partial2_def DistanceMatrix_def str_nat.simps
        pyfloat_simps)
  show ?thesis
    using default_identifiers
      [of example_env "Name ''observed_otus''" "[[1, 3], [0, 1]]" True Map.empty
          "\<lparr>series_values = [2, 1], series_index = RangeIndex 2\<rparr>"
          example_env "Callable cityblock" "[[1, 2], [3, 5]]" True None None Map.empty
          "\<lparr>dm_condensed = [5], dm_ids = [''0'', ''1'']\<rparr>" 2] a b
    by simp
qed

text \<open>
  C9 as stated fails for \<open>alpha_diversity\<close>: without \<open>ids\<close> the index of the result is the
  integer range, not the list of the row positions rendered as strings.
\<close>

theorem alpha_diversity_default_index_not_strings:
  "snd (alpha_diversity example_env (Name ''observed_otus'') [[1, 3], [0, 1]] None True Map.empty) =
     Inr \<lparr>series_values = [2, 1], series_index = RangeIndex 2\<rparr> \<and>
   snd (alpha_diversity example_env (Name ''observed_otus'') [[1, 3], [0, 1]] None True Map.empty) \<noteq>
     Inr \<lparr>series_values = [2, 1], series_index = Index (map str_nat [0..<2])\<rparr>"
  by (simp add: registry_names alpha_names_def alpha_diversity_def run_defs
      resolve_alpha_metric_def example_env_def partial_def observed_def Series_def pyfloat_simps)

subsection \<open>The restricted pairwise computer on admissible pairs\<close>

text \<open>The index of an identifier, the fill loop, and the fold into condensed form.\<close>

lemma id_index_fold_notin:
  "a \<notin> set xs \<Longrightarrow> fold (\<lambda>(idx, i) m. m(i \<mapsto> idx)) (enumerate k xs) m a = m a"
  by (induction xs arbitrary: k m) auto

lemma id_index_fold_nth:
  "distinct xs \<Longrightarrow> i < length xs \<Longrightarrow>
     fold (\<lambda>(idx, i) m. m(i \<mapsto> idx)) (enumerate k xs) m (xs ! i) = Some (k + i)"
proof (induction xs arbitrary: k m i)
  case Nil
  then show ?case by simp
next
  case (Cons x xs)
  show ?case
  proof (cases i)
    case 0
    have "x \<notin> set xs" using Cons.prems by simp
    then have "fold (\<lambda>(idx, i) m. m(i \<mapsto> idx)) (enumerate (Suc k) xs) (m(x \<mapsto> k)) x =
        (m(x \<mapsto> k)) x"
      by (rule id_index_fold_notin)
    also have "\<dots> = Some k" by simp
    finally show ?thesis using 0 by (simp del: fun_upd_apply)
  next
    case (Suc j)
    with Cons.prems Cons.IH [of j "Suc k" "m(x \<mapsto> k)"] show ?thesis
      by (simp del: fun_upd_apply)
  qed
qed

lemma id_index_nth:
  "distinct ids \<Longrightarrow> i < length ids \<Longrightarrow> id_index ids (ids ! i) = Some i"
  using id_index_fold_nth [of ids i 0 Map.empty] by (simp add: id_index_def)

lemma fill_dm_cells:
  assumes tot: "\<And>x y. x \<in> set counts \<Longrightarrow> y \<in> set counts \<Longrightarrow> f x y kw = Inr (g x y)"
    and n: "length counts = n"
  shows "\<forall>p \<in> set ps. \<exists>u v. idx (fst p) = Some u \<and> idx (snd p) = Some v \<and> u < n \<and> v < n \<Longrightarrow>
     length dm = n \<Longrightarrow> \<forall>i<n. length (dm ! i) = n \<Longrightarrow>
     \<exists>dm'. fill_dm f kw counts idx ps dm =
         (map (\<lambda>p. MetricPair (counts ! the (idx (fst p))) (counts ! the (idx (snd p)))) ps,
          Inr dm') \<and>
       length dm' = n \<and> (\<forall>i<n. length (dm' ! i) = n) \<and>
       (\<forall>i<n. \<forall>j<n. dm' ! i ! j =
          (if \<exists>p \<in> set ps. idx (fst p) = Some i \<and> idx (snd p) = Some j
           then g (counts ! i) (counts ! j) else dm ! i ! j))"
proof (induction ps arbitrary: dm)
  case Nil
  then show ?case by (simp add: returns_def)
next
  case (Cons p ps)
  obtain a b where p: "p = (a, b)" by (cases p)
  from Cons.prems(1) p obtain u v where uv: "idx a = Some u" "idx b = Some v" "u < n" "v < n"
    by auto
  let ?d = "g (counts ! u) (counts ! v)"
  let ?dm1 = "dm[u := (dm ! u)[v := ?d]]"
  have d: "f (counts ! u) (counts ! v) kw = Inr ?d"
    using uv n by (intro tot) simp_all
  have len1: "length ?dm1 = n" using Cons.prems(2) by simp
  have rows1: "\<forall>i<n. length (?dm1 ! i) = n"
    using Cons.prems(2,3) uv by (simp add: nth_list_update)
  have cell1: "?dm1 ! i ! j = (if i = u \<and> j = v then ?d else dm ! i ! j)" if "i < n" "j < n" for i j
    using that Cons.prems(2,3) uv by (simp add: nth_list_update)
  from Cons.prems(1) have rest: "\<forall>p \<in> set ps. \<exists>u v. idx (fst p) = Some u \<and> idx (snd p) = Some v \<and> u < n \<and> v < n"
    by simp
  from Cons.IH [OF rest len1 rows1] obtain dm' where
    run: "fill_dm f kw counts idx ps ?dm1 =
         (map (\<lambda>p. MetricPair (counts ! the (idx (fst p))) (counts ! the (idx (snd p)))) ps,
          Inr dm')"
    and len: "length dm' = n" and rows: "\<forall>i<n. length (dm' ! i) = n"
    and cells: "\<forall>i<n. \<forall>j<n. dm' ! i ! j =
          (if \<exists>p \<in> set ps. idx (fst p) = Some i \<and> idx (snd p) = Some j
           then g (counts ! i) (counts ! j) else ?dm1 ! i ! j)"
    by blast
  have step: "fill_dm f kw counts idx (p # ps) dm =
      (map (\<lambda>p. MetricPair (counts ! the (idx (fst p))) (counts ! the (idx (snd p)))) (p # ps),
       Inr dm')"
    using uv n d run by (simp add: p call_def)
  have "dm' ! i ! j =
      (if \<exists>q \<in> set (p # ps). idx (fst q) = Some i \<and> idx (snd q) = Some j
       then g (counts ! i) (counts ! j) else dm ! i ! j)" if "i < n" "j < n" for i j
    using cells that cell1 [OF that] uv p by auto
  with step len rows show ?case by blast
qed

lemma zeros_dims:
  "length (zeros n n) = n" "\<forall>i<n. length (zeros n n ! i) = n"
  "i < n \<Longrightarrow> j < n \<Longrightarrow> zeros n n ! i ! j = 0"
  by (simp_all add: zeros_def)

lemma mat_add_transpose_nth:
  assumes "length m = n" and "\<forall>i<n. length (m ! i) = n" and "i < n" and "j < n"
  shows "mat_add m (mat_transpose m) ! i ! j = m ! i ! j + m ! j ! i"
  using assms by (simp add: mat_add_def mat_transpose_def)

lemma mat_add_transpose_length:
  "length (mat_add m (mat_transpose m)) = length m"
  by (simp add: mat_add_def mat_transpose_def)

lemma squareform_sym:
  assumes l: "length m = n" and r: "\<forall>i<n. length (m ! i) = n"
    and one: "\<forall>i<n. \<forall>j<n. m ! i ! j = 0 \<or> m ! j ! i = 0"
  shows "squareform (mat_add m (mat_transpose m)) =
     (if \<forall>i<n. \<forall>j<n. m ! i ! j \<noteq> NaN
      then Inr (concat (map (\<lambda>i. map (\<lambda>j. m ! i ! j + m ! j ! i) [Suc i..<n]) [0..<n]))
      else Inl (ValueError [Txt ''Distance matrix must be symmetric.'']))"
proof -
  let ?S = "mat_add m (mat_transpose m)"
  have c: "?S ! i ! j = m ! i ! j + m ! j ! i" if "i < n" "j < n" for i j
    using l r that by (rule mat_add_transpose_nth)
  have nan: "?S ! i ! j \<noteq> NaN \<longleftrightarrow> m ! i ! j \<noteq> NaN \<and> m ! j ! i \<noteq> NaN"
    if "i < n" "j < n" for i j
  proof
    assume "?S ! i ! j \<noteq> NaN"
    then show "m ! i ! j \<noteq> NaN \<and> m ! j ! i \<noteq> NaN"
      unfolding c [OF that] by (rule fadd_NaN)
  next
    assume a: "m ! i ! j \<noteq> NaN \<and> m ! j ! i \<noteq> NaN"
    from one that have "m ! i ! j = 0 \<or> m ! j ! i = 0" by blast
    then show "?S ! i ! j \<noteq> NaN"
      unfolding c [OF that] using a by auto
  qed
  have eq: "feq (?S ! i ! j) (?S ! j ! i) \<longleftrightarrow> m ! i ! j \<noteq> NaN \<and> m ! j ! i \<noteq> NaN"
    if "i < n" "j < n" for i j
  proof -
    have "?S ! j ! i = ?S ! i ! j"
      using c [OF that] c [OF that(2,1)] by (simp add: add.commute)
    then show ?thesis using nan [OF that] by (simp add: feq_self)
  qed
  have sym: "list_all (\<lambda>i. list_all (\<lambda>j. feq (?S ! i ! j) (?S ! j ! i)) [0..<n]) [0..<n] \<longleftrightarrow>
      (\<forall>i<n. \<forall>j<n. m ! i ! j \<noteq> NaN)"
    unfolding list_all_iff using eq by auto
  have diag: "list_all (\<lambda>i. feq (?S ! i ! i) 0) [0..<n]"
  proof -
    have "?S ! i ! i = 0" if "i < n" for i
      using c [OF that that] one [rule_format, OF that that] by simp
    then show ?thesis
      by (simp add: list_all_iff feq_self zero_pyfloat_def)
  qed
  have tri: "map (\<lambda>i. map (\<lambda>j. ?S ! i ! j) [Suc i..<n]) [0..<n] =
      map (\<lambda>i. map (\<lambda>j. m ! i ! j + m ! j ! i) [Suc i..<n]) [0..<n]"
    by (intro map_cong refl) (simp add: c)
  have e: "squareform ?S =
      (if \<forall>i<n. \<forall>j<n. m ! i ! j \<noteq> NaN
       then Inr (concat (map (\<lambda>i. map (\<lambda>j. ?S ! i ! j) [Suc i..<n]) [0..<n]))
       else Inl (ValueError [Txt ''Distance matrix must be symmetric.'']))"
    unfolding squareform_def Let_def mat_add_transpose_length l using sym diag by simp
  show ?thesis
    unfolding e tri by (rule refl)
qed

lemma run_all_calls:
  assumes "\<And>c. c \<in> set xs \<Longrightarrow> h c = ([ev c], Inr (g c))"
  shows "run_all h xs = (map ev xs, Inr (map g xs))"
  using assms by (induction xs) (simp_all add: returns_def)

lemma upper_pairs_mem: "(i, j) \<in> set (upper_pairs n) \<Longrightarrow> i < j \<and> j < n"
  by (auto simp: upper_pairs_def)

lemma pdist_callable:
  assumes "\<And>x y. x \<in> set X \<Longrightarrow> y \<in> set X \<Longrightarrow> f x y kw = Inr (g x y)"
  shows "pdist env X (Callable f) kw =
     (map (\<lambda>(i, j). MetricPair (X ! i) (X ! j)) (upper_pairs (length X)),
      Inr (concat (map (\<lambda>i. map (\<lambda>j. g (X ! i) (X ! j)) [Suc i..<length X]) [0..<length X])))"
proof -
  have "run_all (\<lambda>(i, j). call (MetricPair (X ! i) (X ! j)) (f (X ! i) (X ! j) kw))
          (upper_pairs (length X)) =
        (map (\<lambda>(i, j). MetricPair (X ! i) (X ! j)) (upper_pairs (length X)),
         Inr (map (\<lambda>(i, j). g (X ! i) (X ! j)) (upper_pairs (length X))))"
  proof (rule run_all_calls)
    fix c assume c: "c \<in> set (upper_pairs (length X))"
    obtain i j where ij: "c = (i, j)" by (cases c)
    with c have "i < length X" "j < length X" by (auto dest: upper_pairs_mem)
    then show "(case c of (i, j) \<Rightarrow> call (MetricPair (X ! i) (X ! j)) (f (X ! i) (X ! j) kw)) =
        ([case c of (i, j) \<Rightarrow> MetricPair (X ! i) (X ! j)], Inr (case c of (i, j) \<Rightarrow> g (X ! i) (X ! j)))"
      by (simp add: ij call_def assms)
  qed
  moreover have "map (\<lambda>(i, j). g (X ! i) (X ! j)) (upper_pairs (length X)) =
      concat (map (\<lambda>i. map (\<lambda>j. g (X ! i) (X ! j)) [Suc i..<length X]) [0..<length X])"
    by (simp add: upper_pairs_def map_concat comp_def)
  ultimately show ?thesis by (simp add: pdist_def)
qed

lemma partial_pw_run:
  fixes ids :: "string list" and counts :: "'r list" and f :: "('r, 'k) beta_fn"
  defines "n \<equiv> length ids"
  defines "trace \<equiv> (\<lambda>ps. map (\<lambda>p. MetricPair (counts ! the (id_index ids (fst p)))
                                            (counts ! the (id_index ids (snd p)))) ps)"
  assumes dist: "distinct ids" and len: "length counts = length ids"
    and sub: "set (concat (map (\<lambda>(a, b). [a, b]) ps)) \<subseteq> set ids"
    and nd: "distinct (ps @ map prod.swap ps)"
    and tot: "\<And>x y. x \<in> set counts \<Longrightarrow> y \<in> set counts \<Longrightarrow> f x y kw = Inr (g x y)"
  shows "\<exists>dm. fill_dm f kw counts (id_index ids) ps (zeros n n) = (trace ps, Inr dm) \<and>
     length dm = n \<and> (\<forall>i<n. length (dm ! i) = n) \<and>
     (\<forall>i<n. \<forall>j<n. dm ! i ! j =
        (if (ids ! i, ids ! j) \<in> set ps then g (counts ! i) (counts ! j) else 0)) \<and>
     (\<forall>i<n. \<forall>j<n. (ids ! i, ids ! j) \<in> set ps \<longrightarrow> dm ! j ! i = 0) \<and>
     partial_pw (Some ids) ps counts (Callable f) kw =
       (trace ps, squareform (mat_add dm (mat_transpose dm))) \<and>
     squareform (mat_add dm (mat_transpose dm)) =
       (if \<forall>i<n. \<forall>j<n. dm ! i ! j \<noteq> NaN
        then Inr (concat (map (\<lambda>i. map (\<lambda>j. dm ! i ! j + dm ! j ! i) [Suc i..<n]) [0..<n]))
        else Inl (ValueError [Txt ''Distance matrix must be symmetric.'']))"
proof -
  have mem: "fst p \<in> set ids" "snd p \<in> set ids" if "p \<in> set ps" for p
    using sub that by (cases p; force)+
  have idx: "\<exists>u<n. id_index ids a = Some u \<and> ids ! u = a" if "a \<in> set ids" for a
    using that dist unfolding n_def by (metis in_set_conv_nth id_index_nth)
  have pre: "\<forall>p \<in> set ps. \<exists>u v. id_index ids (fst p) = Some u \<and> id_index ids (snd p) = Some v \<and>
      u < n \<and> v < n"
    using mem idx by blast
  have cond: "(\<exists>p \<in> set ps. id_index ids (fst p) = Some i \<and> id_index ids (snd p) = Some j) \<longleftrightarrow>
      (ids ! i, ids ! j) \<in> set ps" if "i < n" "j < n" for i j
  proof
    assume "\<exists>p \<in> set ps. id_index ids (fst p) = Some i \<and> id_index ids (snd p) = Some j"
    then obtain p where p: "p \<in> set ps" "id_index ids (fst p) = Some i"
      "id_index ids (snd p) = Some j" by blast
    from idx [OF mem(1) [OF p(1)]] p(2) have "ids ! i = fst p" by auto
    moreover from idx [OF mem(2) [OF p(1)]] p(3) have "ids ! j = snd p" by auto
    ultimately show "(ids ! i, ids ! j) \<in> set ps" using p(1) by simp
  next
    assume "(ids ! i, ids ! j) \<in> set ps"
    moreover have "id_index ids (ids ! i) = Some i" "id_index ids (ids ! j) = Some j"
      using that dist unfolding n_def by (simp_all add: id_index_nth)
    ultimately show "\<exists>p \<in> set ps. id_index ids (fst p) = Some i \<and> id_index ids (snd p) = Some j"
      by force
  qed
  from fill_dm_cells [of counts f kw g n ps "id_index ids" "zeros n n", OF tot _ pre]
  obtain dm where run: "fill_dm f kw counts (id_index ids) ps (zeros n n) = (trace ps, Inr dm)"
    and l: "length dm = n" and r: "\<forall>i<n. length (dm ! i) = n"
    and c0: "\<forall>i<n. \<forall>j<n. dm ! i ! j =
          (if \<exists>p \<in> set ps. id_index ids (fst p) = Some i \<and> id_index ids (snd p) = Some j
           then g (counts ! i) (counts ! j) else zeros n n ! i ! j)"
    unfolding trace_def using len zeros_dims(1,2) n_def by blast
  have cells: "\<forall>i<n. \<forall>j<n. dm ! i ! j =
        (if (ids ! i, ids ! j) \<in> set ps then g (counts ! i) (counts ! j) else 0)"
    using c0 cond by (simp add: zeros_dims(3))
  have rev: "(b, a) \<notin> set ps" if "(a, b) \<in> set ps" for a b
  proof
    assume "(b, a) \<in> set ps"
    then have "(a, b) \<in> set (map prod.swap ps)" by force
    with that nd show False by auto
  qed
  have other: "\<forall>i<n. \<forall>j<n. (ids ! i, ids ! j) \<in> set ps \<longrightarrow> dm ! j ! i = 0"
    using cells rev by auto
  have one: "\<forall>i<n. \<forall>j<n. dm ! i ! j = 0 \<or> dm ! j ! i = 0"
    using cells other by auto
  have "card (set ps \<union> set (map prod.swap ps)) = length ps * 2"
    using nd card_hashes by blast
  then have pw: "partial_pw (Some ids) ps counts (Callable f) kw =
      (trace ps, squareform (mat_add dm (mat_transpose dm)))"
    using sub run by (simp add: partial_pw_def Let_def lift_def n_def)
  note sq = squareform_sym [OF l r one]
  from run l r cells other pw sq show ?thesis by blast
qed


text \<open>
  C2 (as the code has it). For distinct identifiers, one row of counts per identifier, pairs
  that pass the two checks and a metric that returns a value, the loop calls the metric on
  the rows of each pair \<open>(u, v)\<close>, in the given order, and stores the value in cell
  \<open>(u, v)\<close> only of the zero matrix: every other cell, cell \<open>(v, u)\<close> included, is still 0
  after the loop. The result is \<open>squareform\<close> of the matrix plus its transpose: the upper
  triangle of the sum, row by row, when no stored value is NaN; a NaN fails the symmetry
  test of \<open>squareform\<close>, which raises.
\<close>

theorem partial_pw_fills_one_cell_per_pair:
  fixes ids :: "string list" and counts :: "'r list" and metric :: "('r, 'k) beta_fn"
  defines "n \<equiv> length ids"
  assumes "distinct ids" and "length counts = length ids"
    and "set (concat (map (\<lambda>(a, b). [a, b]) id_pairs)) \<subseteq> set ids"
    and "card (set id_pairs \<union> set (map prod.swap id_pairs)) = length id_pairs * 2"
    and "\<forall>x \<in> set counts. \<forall>y \<in> set counts. metric x y kwargs = Inr (g x y)"
  shows "\<exists>dm.
     fill_dm metric kwargs counts (id_index ids) id_pairs (zeros n n) =
       (map (\<lambda>p. MetricPair (counts ! the (id_index ids (fst p)))
                            (counts ! the (id_index ids (snd p)))) id_pairs,
        Inr dm) \<and>
     (\<forall>i<n. \<forall>j<n. dm ! i ! j =
        (if (ids ! i, ids ! j) \<in> set id_pairs then g (counts ! i) (counts ! j) else 0)) \<and>
     (\<forall>i<n. \<forall>j<n. (ids ! i, ids ! j) \<in> set id_pairs \<longrightarrow> dm ! j ! i = 0) \<and>
     partial_pw (Some ids) id_pairs counts (Callable metric) kwargs =
       (map (\<lambda>p. MetricPair (counts ! the (id_index ids (fst p)))
                            (counts ! the (id_index ids (snd p)))) id_pairs,
        squareform (mat_add dm (mat_transpose dm))) \<and>
     squareform (mat_add dm (mat_transpose dm)) =
       (if \<forall>i<n. \<forall>j<n. dm ! i ! j \<noteq> NaN
        then Inr (concat (map (\<lambda>i. map (\<lambda>j. dm ! i ! j + dm ! j ! i) [Suc i..<n]) [0..<n]))
        else Inl (ValueError [Txt ''Distance matrix must be symmetric.'']))"
proof -
  have nd: "distinct (id_pairs @ map prod.swap id_pairs)"
    using assms(5) card_hashes by blast
  have tot: "\<And>x y. x \<in> set counts \<Longrightarrow> y \<in> set counts \<Longrightarrow> metric x y kwargs = Inr (g x y)"
    using assms(6) by blast
  from partial_pw_run [where f = metric and kw = kwargs and g = g, OF assms(2,3,4) nd tot]
  show ?thesis unfolding n_def by blast
qed

theorem partial_pw_fills_one_cell_per_pair_witness:
  "distinct [''a'', ''b'', ''c''] \<and>
   card (set [(''a'', ''b''), (''c'', ''a'')] \<union> set (map prod.swap [(''a'', ''b''), (''c'', ''a'')])) =
     length [(''a'', ''b''), (''c'', ''a'')] * 2 \<and>
   fill_dm cityblock Map.empty [[1], [3], [6]] (id_index [''a'', ''b'', ''c''])
       [(''a'', ''b''), (''c'', ''a'')] (zeros 3 3) =
     ([MetricPair [1] [3], MetricPair [6] [1]], Inr [[0, 2, 0], [0, 0, 0], [5, 0, 0]]) \<and>
   partial_pw (Some [''a'', ''b'', ''c'']) [(''a'', ''b''), (''c'', ''a'')] [[1], [3], [6]]
       (Callable cityblock) Map.empty =
     ([MetricPair [1] [3], MetricPair [6] [1]], Inr [2, 5, 0])"
proof -
  let ?ids = "[''a'', ''b'', ''c'']"
  let ?ps = "[(''a'', ''b''), (''c'', ''a'')]"
  let ?counts = "[[1], [3], [6::real]]"
  let ?g = "\<lambda>x y :: real list. Num (sum_list (map2 (\<lambda>a b. \<bar>a - b\<bar>) x y))"
  have d: "distinct ?ids" by simp
  have c: "card (set ?ps \<union> set (map prod.swap ?ps)) = length ?ps * 2" by simp
  have s: "set (concat (map (\<lambda>(a, b). [a, b]) ?ps)) \<subseteq> set ?ids" by simp
  have t: "\<forall>x \<in> set ?counts. \<forall>y \<in> set ?counts. cityblock x y Map.empty = Inr (?g x y)"
    by (simp add: cityblock_def)
  have f: "fill_dm cityblock Map.empty ?counts (id_index ?ids) ?ps (zeros 3 3) =
      ([MetricPair [1] [3], MetricPair [6] [1]], Inr [[0, 2, 0], [0, 0, 0], [5, 0, 0]])"
    by (simp add: id_index_def enumerate_eq_zip upt_conv_Cons zeros_def call_def returns_def
        cityblock_def numeral_3_eq_3 pyfloat_simps)
  from partial_pw_fills_one_cell_per_pair [of ?ids ?counts ?ps cityblock Map.empty ?g] d c s t
  obtain dm where
    f': "fill_dm cityblock Map.empty ?counts (id_index ?ids) ?ps (zeros (length ?ids) (length ?ids)) =
       (map (\<lambda>p. MetricPair (?counts ! the (id_index ?ids (fst p)))
                            (?counts ! the (id_index ?ids (snd p)))) ?ps, Inr dm)"
    and p: "partial_pw (Some ?ids) ?ps ?counts (Callable cityblock) Map.empty =
       (map (\<lambda>p. MetricPair (?counts ! the (id_index ?ids (fst p)))
                            (?counts ! the (id_index ?ids (snd p)))) ?ps,
        squareform (mat_add dm (mat_transpose dm)))"
    by auto
  have l3: "length ?ids = 3" by simp
  have f0: "fill_dm cityblock Map.empty ?counts (id_index ?ids) ?ps
      (zeros (length ?ids) (length ?ids)) =
      ([MetricPair [1] [3], MetricPair [6] [1]], Inr [[0, 2, 0], [0, 0, 0], [5, 0, 0]])"
    unfolding l3 by (rule f)
  from f' [unfolded f0] have dm: "dm = [[0, 2, 0], [0, 0, 0], [5, 0, 0]]"
    and tr: "map (\<lambda>p. MetricPair (?counts ! the (id_index ?ids (fst p)))
                            (?counts ! the (id_index ?ids (snd p)))) ?ps =
             [MetricPair [1] [3], MetricPair [6] [1]]"
    by (simp_all only: prod.inject sum.inject)
  have "partial_pw (Some ?ids) ?ps ?counts (Callable cityblock) Map.empty =
     ([MetricPair [1] [3], MetricPair [6] [1]], Inr [2, 5, 0])"
    unfolding p tr unfolding dm
    by (simp add: squareform_def mat_add_def mat_transpose_def upt_conv_Cons feq_def
        pyfloat_simps)
  with d c f show ?thesis by blast
qed


text \<open>
  C2 as stated fails: the value is not written into cell \<open>(v, u)\<close>. For the pair
  \<open>('a', 'b')\<close> with distance 2 the matrix after the loop has 0 in cell \<open>(1, 0)\<close>, and the
  result is 2 (writing both cells and then adding the transpose would give 4).
\<close>

theorem partial_pw_reverse_cell_not_written:
  "fill_dm cityblock Map.empty [[1], [3]] (id_index [''a'', ''b'']) [(''a'', ''b'')] (zeros 2 2) =
     ([MetricPair [1] [3]], Inr [[0, 2], [0, 0]]) \<and>
   cityblock [1] [3] Map.empty = Inr 2 \<and>
   [[0, 2], [0, 0 :: pyfloat]] ! 1 ! 0 \<noteq> 2 \<and>
   partial_pw (Some [''a'', ''b'']) [(''a'', ''b'')] [[1], [3]] (Callable cityblock) Map.empty =
     ([MetricPair [1] [3]], Inr [2])"
  by (simp add: partial_pw_def id_index_def enumerate_eq_zip upt_conv_Cons zeros_def run_defs
      cityblock_def squareform_def mat_add_def mat_transpose_def numeral_2_eq_2 feq_def
      pyfloat_simps)


text \<open>
  A NaN distance is where the two backends part whatever the pairs: it lands in both cells of
  the sum, fails the symmetry test of \<open>squareform\<close>, and \<open>_partial_pw\<close> raises, while
  \<open>pdist\<close> returns the vector with the NaN in it.
\<close>

lemma partial_pw_nan_differs_from_pdist:
  "snd (partial_pw (Some [''a'', ''b'']) [(''a'', ''b'')] [[0], [0]] (Callable undefined_distance)
          Map.empty) = Inl (ValueError [Txt ''Distance matrix must be symmetric.'']) \<and>
   snd (pdist example_env [[0], [0]] (Callable undefined_distance) Map.empty) = Inr [NaN]"
  by (simp add: partial_pw_def id_index_def enumerate_eq_zip upt_conv_Cons zeros_def run_defs
      undefined_distance_def squareform_def mat_add_def mat_transpose_def pdist_def
      upper_pairs_def numeral_2_eq_2 feq_def pyfloat_simps)

text \<open>
  C1 (as the code has it). For distinct identifiers, one row of counts per identifier and a
  callable that returns a value other than NaN on every pair of rows: when \<open>id_pairs\<close> holds
  every unordered pair of identifiers exactly once, and the callable has the same value in
  both argument orders on every pair that is listed against the row order (so for every
  symmetric callable, and for any callable when each pair is listed as
  \<open>(ids[i], ids[j])\<close>, \<open>i < j\<close>), the vector returned by \<open>_partial_pw\<close> is the one
  \<open>pdist\<close> returns: the metric on rows \<open>i < j\<close>, row by row.
\<close>

theorem partial_pw_full_pairs_eq_pdist:
  assumes "distinct ids" and "length counts = length ids"
    and "distinct (id_pairs @ map prod.swap id_pairs)"
    and "set id_pairs \<union> set (map prod.swap id_pairs) =
           {(a, b). a \<in> set ids \<and> b \<in> set ids \<and> a \<noteq> b}"
    and "\<forall>x \<in> set counts. \<forall>y \<in> set counts. metric x y kwargs = Inr (g x y)"
    and "\<forall>x \<in> set counts. \<forall>y \<in> set counts. g x y \<noteq> NaN"
    and "\<forall>i j. i < j \<and> j < length ids \<and> (ids ! j, ids ! i) \<in> set id_pairs \<longrightarrow>
           g (counts ! j) (counts ! i) = g (counts ! i) (counts ! j)"
  shows "snd (partial_pw (Some ids) id_pairs counts (Callable metric) kwargs) =
           snd (pdist env counts (Callable metric) kwargs) \<and>
         snd (pdist env counts (Callable metric) kwargs) =
           Inr (concat (map (\<lambda>i. map (\<lambda>j. g (counts ! i) (counts ! j)) [Suc i..<length counts])
                  [0..<length counts]))"
proof -
  let ?n = "length ids"
  have tot: "\<And>x y. x \<in> set counts \<Longrightarrow> y \<in> set counts \<Longrightarrow> metric x y kwargs = Inr (g x y)"
    using assms(5) by blast
  have sub: "set (concat (map (\<lambda>(a, b). [a, b]) id_pairs)) \<subseteq> set ids"
  proof
    fix a assume "a \<in> set (concat (map (\<lambda>(a, b). [a, b]) id_pairs))"
    then obtain p where p: "p \<in> set id_pairs" "a = fst p \<or> a = snd p" by auto
    then have "p \<in> {(a, b). a \<in> set ids \<and> b \<in> set ids \<and> a \<noteq> b}"
      using assms(4) by blast
    with p(2) show "a \<in> set ids" by auto
  qed
  from partial_pw_run [where f = metric and kw = kwargs and g = g, OF assms(1,2) sub assms(3) tot]
  obtain dm where
    cells: "\<forall>i<?n. \<forall>j<?n. dm ! i ! j =
        (if (ids ! i, ids ! j) \<in> set id_pairs then g (counts ! i) (counts ! j) else 0)"
    and pw: "partial_pw (Some ids) id_pairs counts (Callable metric) kwargs =
        (map (\<lambda>p. MetricPair (counts ! the (id_index ids (fst p)))
                             (counts ! the (id_index ids (snd p)))) id_pairs,
         squareform (mat_add dm (mat_transpose dm)))"
    and sq: "squareform (mat_add dm (mat_transpose dm)) =
       (if \<forall>i<?n. \<forall>j<?n. dm ! i ! j \<noteq> NaN
        then Inr (concat (map (\<lambda>i. map (\<lambda>j. dm ! i ! j + dm ! j ! i) [Suc i..<?n]) [0..<?n]))
        else Inl (ValueError [Txt ''Distance matrix must be symmetric.'']))"
    by blast
  have "dm ! i ! j \<noteq> NaN" if "i < ?n" "j < ?n" for i j
  proof -
    have "counts ! i \<in> set counts" "counts ! j \<in> set counts"
      using that assms(2) by simp_all
    then have "g (counts ! i) (counts ! j) \<noteq> NaN" using assms(6) by blast
    with cells that show ?thesis by (simp add: zero_pyfloat_def)
  qed
  with pw sq have out: "snd (partial_pw (Some ids) id_pairs counts (Callable metric) kwargs) =
        Inr (concat (map (\<lambda>i. map (\<lambda>j. dm ! i ! j + dm ! j ! i) [Suc i..<?n]) [0..<?n]))"
    by simp
  have cell: "dm ! i ! j + dm ! j ! i = g (counts ! i) (counts ! j)" if "i < j" "j < ?n" for i j
  proof -
    from that have i: "i < ?n" by simp
    have ne: "ids ! i \<noteq> ids ! j"
      using assms(1) that i by (simp add: nth_eq_iff_index_eq)
    have "(ids ! i, ids ! j) \<in> {(a, b). a \<in> set ids \<and> b \<in> set ids \<and> a \<noteq> b}"
      using ne that i by simp
    then have "(ids ! i, ids ! j) \<in> set id_pairs \<union> set (map prod.swap id_pairs)"
      using assms(4) by simp
    then consider (fwd) "(ids ! i, ids ! j) \<in> set id_pairs"
      | (bwd) "(ids ! j, ids ! i) \<in> set id_pairs" by force
    then show ?thesis
    proof cases
      case fwd
      then have "(ids ! i, ids ! j) \<in> set (map prod.swap (map prod.swap id_pairs))" by simp
      have "(ids ! j, ids ! i) \<notin> set id_pairs"
      proof
        assume "(ids ! j, ids ! i) \<in> set id_pairs"
        then have "(ids ! i, ids ! j) \<in> set (map prod.swap id_pairs)" by force
        with fwd assms(3) show False by auto
      qed
      with fwd cells that i show ?thesis by simp
    next
      case bwd
      have "(ids ! i, ids ! j) \<notin> set id_pairs"
      proof
        assume "(ids ! i, ids ! j) \<in> set id_pairs"
        then have "(ids ! j, ids ! i) \<in> set (map prod.swap id_pairs)" by force
        with bwd assms(3) show False by auto
      qed
      moreover have "g (counts ! j) (counts ! i) = g (counts ! i) (counts ! j)"
        using assms(7) that bwd by blast
      ultimately show ?thesis using bwd cells that i by simp
    qed
  qed
  have "map (\<lambda>i. map (\<lambda>j. dm ! i ! j + dm ! j ! i) [Suc i..<?n]) [0..<?n] =
      map (\<lambda>i. map (\<lambda>j. g (counts ! i) (counts ! j)) [Suc i..<?n]) [0..<?n]"
    by (intro map_cong refl) (simp add: cell)
  with out have "snd (partial_pw (Some ids) id_pairs counts (Callable metric) kwargs) =
      Inr (concat (map (\<lambda>i. map (\<lambda>j. g (counts ! i) (counts ! j)) [Suc i..<?n]) [0..<?n]))"
    by simp
  moreover note pdist_callable [of counts metric kwargs g env, OF tot]
  ultimately show ?thesis using assms(2) by simp
qed

theorem partial_pw_full_pairs_eq_pdist_witness:
  "distinct [''a'', ''b'', ''c''] \<and>
   distinct ([(''b'', ''a''), (''a'', ''c''), (''b'', ''c'')] @
             map prod.swap [(''b'', ''a''), (''a'', ''c''), (''b'', ''c'')]) \<and>
   snd (partial_pw (Some [''a'', ''b'', ''c'']) [(''b'', ''a''), (''a'', ''c''), (''b'', ''c'')]
          [[1], [3], [6]] (Callable cityblock) Map.empty) = Inr [2, 5, 3] \<and>
   snd (pdist example_env [[1], [3], [6]] (Callable cityblock) Map.empty) = Inr [2, 5, 3]"
proof -
  let ?ids = "[''a'', ''b'', ''c'']"
  let ?ps = "[(''b'', ''a''), (''a'', ''c''), (''b'', ''c'')]"
  let ?counts = "[[1], [3], [6::real]]"
  let ?g = "\<lambda>x y :: real list. Num (sum_list (map2 (\<lambda>a b. \<bar>a - b\<bar>) x y))"
  have d: "distinct ?ids" by simp
  have l: "length ?counts = length ?ids" by simp
  have nd: "distinct (?ps @ map prod.swap ?ps)" by simp
  have full: "set ?ps \<union> set (map prod.swap ?ps) =
      {(a, b). a \<in> set ?ids \<and> b \<in> set ?ids \<and> a \<noteq> b}"
    by auto
  have t: "\<forall>x \<in> set ?counts. \<forall>y \<in> set ?counts. cityblock x y Map.empty = Inr (?g x y)"
    by (simp add: cityblock_def)
  have nn: "\<forall>x \<in> set ?counts. \<forall>y \<in> set ?counts. ?g x y \<noteq> NaN"
    by simp
  have sym: "\<forall>x \<in> set ?counts. \<forall>y \<in> set ?counts. ?g y x = ?g x y"
    by simp
  have s: "\<forall>i j. i < j \<and> j < length ?ids \<and> (?ids ! j, ?ids ! i) \<in> set ?ps \<longrightarrow>
      ?g (?counts ! j) (?counts ! i) = ?g (?counts ! i) (?counts ! j)"
  proof (intro allI impI)
    fix i j assume "i < j \<and> j < length ?ids \<and> (?ids ! j, ?ids ! i) \<in> set ?ps"
    then have "i < length ?counts" "j < length ?counts" by simp_all
    then have "?counts ! i \<in> set ?counts" "?counts ! j \<in> set ?counts"
      by (simp_all only: nth_mem)
    with sym show "?g (?counts ! j) (?counts ! i) = ?g (?counts ! i) (?counts ! j)"
      by blast
  qed
  from partial_pw_full_pairs_eq_pdist
    [of ?ids ?counts ?ps cityblock Map.empty ?g example_env, OF d l nd full t nn s]
  have e: "snd (partial_pw (Some ?ids) ?ps ?counts (Callable cityblock) Map.empty) =
      snd (pdist example_env ?counts (Callable cityblock) Map.empty)"
    and p: "snd (pdist example_env ?counts (Callable cityblock) Map.empty) =
      Inr (concat (map (\<lambda>i. map (\<lambda>j. ?g (?counts ! i) (?counts ! j)) [Suc i..<length ?counts])
             [0..<length ?counts]))"
    by blast+
  have v: "concat (map (\<lambda>i. map (\<lambda>j. ?g (?counts ! i) (?counts ! j)) [Suc i..<length ?counts])
             [0..<length ?counts]) = [2, 5, 3]"
    by (simp add: upt_conv_Cons pyfloat_simps)
  from d nd e p v show ?thesis by simp
qed

text \<open>
  C1 as stated fails for a callable that is not symmetric when a pair is listed against the
  row order: \<open>_partial_pw\<close> applies the callable to \<open>(counts[u], counts[v])\<close> as listed,
  \<open>pdist\<close> to the rows in row order.
\<close>

theorem partial_pw_reversed_pair_differs_from_pdist:
  "distinct [''a'', ''b''] \<and>
   distinct ([(''b'', ''a'')] @ map prod.swap [(''b'', ''a'')]) \<and>
   set [(''b'', ''a'')] \<union> set (map prod.swap [(''b'', ''a'')]) = {(''a'', ''b''), (''b'', ''a'')} \<and>
   snd (partial_pw (Some [''a'', ''b'']) [(''b'', ''a'')] [[1], [2]] (Callable first_total)
          Map.empty) = Inr [2] \<and>
   snd (pdist example_env [[1], [2]] (Callable first_total) Map.empty) = Inr [1]"
  by (auto simp: partial_pw_def id_index_def enumerate_eq_zip upt_conv_Cons zeros_def run_defs
      first_total_def squareform_def mat_add_def mat_transpose_def pdist_def upper_pairs_def
      numeral_2_eq_2 feq_def pyfloat_simps)

end
